theory Spec2Isabelle
  imports Main
begin

section \<open>Tensor shapes and Python failures\<close>

text \<open>
  The decoder of \<^verbatim>\<open>dunet.py\<close> is built from the shapes of tensors, never from their
  values: a tensor is represented by its \<^verbatim>\<open>size()\<close>, the list of its dimensions
  (N, C, H, W for an image batch). Every \<^verbatim>\<open>raise\<close> of Python or of the tensor
  runtime is a value \<open>Inl e\<close> of the result type.
\<close>

type_synonym shape = "nat list"

datatype error = IndexError | AttributeError | TypeError | ValueError | RuntimeError

text \<open>Sequencing of fallible steps: the first failure is the result.\<close>

definition bind_err :: "error + 'a \<Rightarrow> ('a \<Rightarrow> error + 'b) \<Rightarrow> error + 'b" where
  "bind_err m f = (case m of Inl e \<Rightarrow> Inl e | Inr v \<Rightarrow> f v)"

text \<open>
  \<^verbatim>\<open>xs[i]\<close> on a Python list, tuple or \<^verbatim>\<open>torch.Size\<close>: indices from \<open>-len\<close> to
  \<open>len - 1\<close> are read, the others raise.
\<close>

definition py_index :: "'a list \<Rightarrow> int \<Rightarrow> error + 'a" where
  "py_index xs i =
     (if 0 \<le> i \<and> i < int (length xs) then Inr (xs ! nat i)
      else if i < 0 \<and> - int (length xs) \<le> i then Inr (xs ! nat (int (length xs) + i))
      else Inl IndexError)"

text \<open>The slice \<^verbatim>\<open>xs[-2:]\<close>: the last two elements, or all of a shorter sequence.\<close>

definition last2 :: "'a list \<Rightarrow> 'a list" where
  "last2 xs = drop (length xs - 2) xs"

text \<open>Reading an instance attribute that may never have been assigned.\<close>

definition getattr :: "'a option \<Rightarrow> error + 'a" where
  "getattr a = (case a of None \<Rightarrow> Inl AttributeError | Some v \<Rightarrow> Inr v)"

text \<open>A list comprehension over a fallible expression stops at the first failure.\<close>

fun map_err :: "('a \<Rightarrow> error + 'b) \<Rightarrow> 'a list \<Rightarrow> error + 'b list" where
  "map_err f [] = Inr []"
| "map_err f (x # xs) =
     (case f x of
        Inl e \<Rightarrow> Inl e
      | Inr y \<Rightarrow> (case map_err f xs of Inl e \<Rightarrow> Inl e | Inr ys \<Rightarrow> Inr (y # ys)))"

section \<open>SaveFeatures\<close>

text \<open>
  \<^verbatim>\<open>SaveFeatures\<close> holds the latest output of the module it is hooked to;
  \<^verbatim>\<open>features\<close> is \<^verbatim>\<open>None\<close> until the hook has fired once.
\<close>

record SaveFeatures =
  features :: "shape option"

text \<open>\<^verbatim>\<open>sfs_feats.features.size()\<close>: \<^verbatim>\<open>None\<close> has no \<^verbatim>\<open>size\<close>.\<close>

definition features_size :: "SaveFeatures \<Rightarrow> error + shape" where
  "features_size s = getattr (features s)"

section \<open>get\_sfs\_idxs\<close>

text \<open>
  \<^verbatim>\<open>np.where(np.array(a) != np.array(b))[0]\<close> for two lists of equal length: the
  positions where they differ, ascending.
\<close>

definition where_neq :: "nat list \<Rightarrow> nat list \<Rightarrow> nat list" where
  "where_neq a b = filter (\<lambda>i. a ! i \<noteq> b ! i) [0..<length a]"

definition get_sfs_idxs :: "SaveFeatures list \<Rightarrow> bool \<Rightarrow> error + nat list" where
  "get_sfs_idxs sfs last_only =
     (if last_only then
        (case map_err (\<lambda>sfs_feats. bind_err (features_size sfs_feats) (\<lambda>sz. py_index sz (- 1))) sfs of
           Inl e \<Rightarrow> Inl e
         | Inr feature_szs \<Rightarrow>
             (let sfs_idxs = where_neq (butlast feature_szs) (tl feature_szs) in
              case py_index feature_szs 0 of
                Inl e \<Rightarrow> Inl e
              | Inr f0 \<Rightarrow>
                  (case py_index feature_szs 1 of
                     Inl e \<Rightarrow> Inl e
                   | Inr f1 \<Rightarrow> Inr (if f0 \<noteq> f1 then 0 # sfs_idxs else sfs_idxs))))
      else Inr [0..<length sfs])"

section \<open>Layers of the tensor runtime, on shapes\<close>

text \<open>
  The layers come from the tensor runtime, not from this repository. They are modelled by
  the runtime's shape rules, with dilation 1 and no output padding, which is how
  \<^verbatim>\<open>dunet.py\<close> constructs every one of them. A convolution takes a batch
  (N, C, H, W) or a single image (C, H, W); it raises a runtime error when its weight is
  empty (no input or no output channels: the constructor accepts such a layer, its forward
  does not), when \<open>C\<close> is not \<open>in_channels\<close>, and when the padded input is smaller
  than the kernel; otherwise it gives \<open>(H + 2p - k) div s + 1\<close>. A transposed convolution
  has the same checks and gives \<open>(H - 1) * s - 2p + k\<close>. Non-linearities keep the shape.
\<close>

datatype Conv2d =
  Conv2d (in_channels: nat) (out_channels: nat) (kernel_size: nat) (stride: nat) (padding: nat)

datatype ConvTranspose2d =
  ConvTranspose2d (t_in_channels: nat) (t_out_channels: nat) (t_kernel_size: nat)
    (t_stride: nat) (t_padding: nat)

text \<open>A freshly constructed module is in training mode, and nothing in the file changes it.\<close>

datatype BatchNorm2d = BatchNorm2d (num_features: nat) (training: bool)

definition conv_out :: "nat \<Rightarrow> nat \<Rightarrow> nat \<Rightarrow> nat \<Rightarrow> error + nat" where
  "conv_out k s p h =
     (if s = 0 \<or> k = 0 \<or> h + 2 * p < k then Inl RuntimeError
      else Inr ((h + 2 * p - k) div s + 1))"

fun Conv2d_forward :: "Conv2d \<Rightarrow> shape \<Rightarrow> error + shape" where
  "Conv2d_forward c [n, ch, h, w] =
     (if 0 < in_channels c \<and> 0 < out_channels c \<and> ch = in_channels c
      then bind_err (conv_out (kernel_size c) (stride c) (padding c) h) (\<lambda>h'.
           bind_err (conv_out (kernel_size c) (stride c) (padding c) w) (\<lambda>w'.
           Inr [n, out_channels c, h', w']))
      else Inl RuntimeError)"
| "Conv2d_forward c [ch, h, w] =
     (if 0 < in_channels c \<and> 0 < out_channels c \<and> ch = in_channels c
      then bind_err (conv_out (kernel_size c) (stride c) (padding c) h) (\<lambda>h'.
           bind_err (conv_out (kernel_size c) (stride c) (padding c) w) (\<lambda>w'.
           Inr [out_channels c, h', w']))
      else Inl RuntimeError)"
| "Conv2d_forward c x = Inl RuntimeError"

definition convT_out :: "nat \<Rightarrow> nat \<Rightarrow> nat \<Rightarrow> nat \<Rightarrow> error + nat" where
  "convT_out k s p h =
     (let h' = (int h - 1) * int s - 2 * int p + int k
      in if s = 0 \<or> k = 0 \<or> h' < 1 then Inl RuntimeError else Inr (nat h'))"

fun ConvTranspose2d_forward :: "ConvTranspose2d \<Rightarrow> shape \<Rightarrow> error + shape" where
  "ConvTranspose2d_forward c [n, ch, h, w] =
     (if 0 < t_in_channels c \<and> 0 < t_out_channels c \<and> ch = t_in_channels c
      then bind_err (convT_out (t_kernel_size c) (t_stride c) (t_padding c) h) (\<lambda>h'.
           bind_err (convT_out (t_kernel_size c) (t_stride c) (t_padding c) w) (\<lambda>w'.
           Inr [n, t_out_channels c, h', w']))
      else Inl RuntimeError)"
| "ConvTranspose2d_forward c [ch, h, w] =
     (if 0 < t_in_channels c \<and> 0 < t_out_channels c \<and> ch = t_in_channels c
      then bind_err (convT_out (t_kernel_size c) (t_stride c) (t_padding c) h) (\<lambda>h'.
           bind_err (convT_out (t_kernel_size c) (t_stride c) (t_padding c) w) (\<lambda>w'.
           Inr [t_out_channels c, h', w']))
      else Inl RuntimeError)"
| "ConvTranspose2d_forward c x = Inl RuntimeError"

text \<open>
  Batch normalisation wants a 4-dimensional input (a single image is a value error), in
  training mode more than one value per channel, and \<open>C = num_features\<close>.
\<close>

fun BatchNorm2d_forward :: "BatchNorm2d \<Rightarrow> shape \<Rightarrow> error + shape" where
  "BatchNorm2d_forward b [n, ch, h, w] =
     (if training b \<and> n * h * w = 1 then Inl ValueError
      else if ch \<noteq> num_features b then Inl RuntimeError
      else Inr [n, ch, h, w])"
| "BatchNorm2d_forward b x = Inl ValueError"

definition relu :: "shape \<Rightarrow> shape" where
  "relu x = x"

definition sigmoid :: "shape \<Rightarrow> shape" where
  "sigmoid x = x"

text \<open>
  \<^verbatim>\<open>torch.cat([a, b], dim=1)\<close>: the two tensors agree in every dimension but the
  second, whose sizes add up.
\<close>

definition torch_cat :: "shape \<Rightarrow> shape \<Rightarrow> error + shape" where
  "torch_cat a b =
     (if length a < 2 then Inl IndexError
      else if length a = length b \<and> a[1 := 0] = b[1 := 0] then Inr (a[1 := a ! 1 + b ! 1])
      else Inl RuntimeError)"

text \<open>The members of an \<^verbatim>\<open>nn.Sequential\<close>, applied in order.\<close>

datatype layer = ConvL Conv2d | ReLU | BatchNormL BatchNorm2d

fun layer_forward :: "layer \<Rightarrow> shape \<Rightarrow> error + shape" where
  "layer_forward (ConvL c) x = Conv2d_forward c x"
| "layer_forward ReLU x = Inr (relu x)"
| "layer_forward (BatchNormL b) x = BatchNorm2d_forward b x"

fun Sequential_forward :: "layer list \<Rightarrow> shape \<Rightarrow> error + shape" where
  "Sequential_forward [] x = Inr x"
| "Sequential_forward (l # ls) x =
     (case layer_forward l x of Inl e \<Rightarrow> Inl e | Inr y \<Rightarrow> Sequential_forward ls y)"

section \<open>conv\_bn\_relu and UnetBlock\<close>

definition conv_bn_relu :: "nat \<Rightarrow> nat \<Rightarrow> nat \<Rightarrow> nat \<Rightarrow> nat \<Rightarrow> layer list" where
  "conv_bn_relu in_c out_c k s p =
     [ConvL (Conv2d in_c out_c k s p), ReLU, BatchNormL (BatchNorm2d out_c True)]"

datatype UnetBlock =
  UnetBlock (upconv: ConvTranspose2d) (conv1: Conv2d) (conv2: Conv2d) (bn: BatchNorm2d)

definition UnetBlock_init :: "nat \<Rightarrow> nat \<Rightarrow> UnetBlock" where
  "UnetBlock_init up_in_c x_in_c =
     UnetBlock
       (ConvTranspose2d up_in_c (up_in_c div 2) 2 2 0)
       (Conv2d (x_in_c + up_in_c div 2) ((x_in_c + up_in_c div 2) div 2) 3 1 1)
       (Conv2d ((x_in_c + up_in_c div 2) div 2) ((x_in_c + up_in_c div 2) div 2) 3 1 1)
       (BatchNorm2d ((x_in_c + up_in_c div 2) div 2) True)"

text \<open>
  The skip activation \<open>x_in\<close> is whatever the recorder holds, possibly \<^verbatim>\<open>None\<close>, which
  \<^verbatim>\<open>torch.cat\<close> rejects.
\<close>

definition UnetBlock_forward :: "UnetBlock \<Rightarrow> shape \<Rightarrow> shape option \<Rightarrow> error + shape" where
  "UnetBlock_forward blk up_in x_in =
     bind_err (ConvTranspose2d_forward (upconv blk) up_in) (\<lambda>up_out.
     bind_err (case x_in of None \<Rightarrow> Inl TypeError | Some xs \<Rightarrow> torch_cat up_out xs) (\<lambda>cat_x.
     bind_err (Conv2d_forward (conv1 blk) cat_x) (\<lambda>x1.
     bind_err (Conv2d_forward (conv2 blk) (relu x1)) (\<lambda>x2.
     BatchNorm2d_forward (bn blk) (relu x2)))))"

section \<open>DynamicUnet\<close>

text \<open>
  The encoder is opaque: each child is a function from the shape of its input to the shape
  of its output, or a failure. The encoder is indexed by position and called as a whole,
  so it is an \<^verbatim>\<open>nn.Sequential\<close>: its children run in order, and the hook of child
  \<open>i\<close> stores that child's output in recorder \<open>i\<close>.
\<close>

type_synonym stage = "shape \<Rightarrow> error + shape"

fun encoder_forward ::
  "stage list \<Rightarrow> SaveFeatures list \<Rightarrow> shape \<Rightarrow> SaveFeatures list \<times> (error + shape)" where
  "encoder_forward [] hs x = (hs, Inr x)"
| "encoder_forward (m # ms) hs x =
     (case m x of
        Inl e \<Rightarrow> (hs, Inl e)
      | Inr y \<Rightarrow>
          (case hs of
             [] \<Rightarrow> encoder_forward ms [] y
           | h # hs' \<Rightarrow>
               (case encoder_forward ms hs' y of
                  (hs'', r) \<Rightarrow> (h\<lparr>features := Some y\<rparr> # hs'', r))))"

text \<open>
  The attributes that \<^verbatim>\<open>forward\<close> creates on first use are optional fields:
  \<^verbatim>\<open>hasattr(self, 'a')\<close> is \<open>a d \<noteq> None\<close>.
\<close>

record DynamicUnet =
  encoder :: "stage list"
  n_children :: nat
  sfs :: "SaveFeatures list"
  last_only :: bool
  n_classes :: nat
  sfs_szs :: "shape list option"
  sfs_idxs :: "nat list option"
  middle_conv :: "layer list option"
  upmodel :: "UnetBlock list option"
  extra_block :: "ConvTranspose2d option"
  final_conv :: "Conv2d option"

definition DynamicUnet_init :: "stage list \<Rightarrow> bool \<Rightarrow> nat \<Rightarrow> DynamicUnet" where
  "DynamicUnet_init enc lst n =
     \<lparr>encoder = enc, n_children = length enc,
      sfs = map (\<lambda>i. \<lparr>features = None\<rparr>) [0..<length enc],
      last_only = lst, n_classes = n,
      sfs_szs = None, sfs_idxs = None, middle_conv = None,
      upmodel = None, extra_block = None, final_conv = None\<rparr>"

text \<open>
  A failing call leaves the instance as far as it got, so every step returns the instance
  together with its result.
\<close>

text \<open>Lines 99 to 104: the shapes, the skip indices and the bottleneck.\<close>

definition init_middle :: "DynamicUnet \<Rightarrow> DynamicUnet \<times> (error + unit)" where
  "init_middle d =
     (case map_err features_size (sfs d) of
        Inl e \<Rightarrow> (d, Inl e)
      | Inr szs \<Rightarrow>
          (let d1 = d\<lparr>sfs_szs := Some szs\<rparr> in
           case get_sfs_idxs (sfs d1) (last_only d1) of
             Inl e \<Rightarrow> (d1, Inl e)
           | Inr idxs \<Rightarrow>
               (let d2 = d1\<lparr>sfs_idxs := Some idxs\<rparr> in
                case bind_err (py_index szs (- 1)) (\<lambda>s. py_index s 1) of
                  Inl e \<Rightarrow> (d2, Inl e)
                | Inr middle_in_c \<Rightarrow>
                    (d2\<lparr>middle_conv :=
                          Some (conv_bn_relu middle_in_c (middle_in_c * 2) 3 1 1 @
                                conv_bn_relu (middle_in_c * 2) middle_in_c 3 1 1)\<rparr>,
                     Inr ()))))"

text \<open>
  Lines 113 to 118: the loop over the reversed skip indices. \<open>upm\<close> is the local list,
  \<open>cur\<close> the attribute \<^verbatim>\<open>self.upmodel\<close>, which is assigned at the end of every
  iteration and so not at all when the loop body never runs.
\<close>

fun build_upmodel ::
  "shape list option \<Rightarrow> SaveFeatures list \<Rightarrow> nat list \<Rightarrow> UnetBlock list \<Rightarrow> shape \<Rightarrow>
   UnetBlock list option \<Rightarrow> UnetBlock list option \<times> (error + shape)" where
  "build_upmodel szs hs [] upm x_copy cur = (cur, Inr x_copy)"
| "build_upmodel szs hs (idx # idxs) upm x_copy cur =
     (case py_index x_copy 1 of
        Inl e \<Rightarrow> (cur, Inl e)
      | Inr up_in_c \<Rightarrow>
          (case bind_err (getattr szs) (\<lambda>ss. bind_err (py_index ss (int idx)) (\<lambda>s. py_index s 1)) of
             Inl e \<Rightarrow> (cur, Inl e)
           | Inr x_in_c \<Rightarrow>
               (let unet_block = UnetBlock_init up_in_c x_in_c;
                    upm' = upm @ [unet_block]
                in case py_index hs (int idx) of
                     Inl e \<Rightarrow> (cur, Inl e)
                   | Inr h \<Rightarrow>
                       (case UnetBlock_forward unet_block x_copy (features h) of
                          Inl e \<Rightarrow> (cur, Inl e)
                        | Inr y \<Rightarrow> build_upmodel szs hs idxs upm' y (Some upm')))))"

text \<open>\<^verbatim>\<open>self.upmodel[-1].conv2.out_channels\<close>\<close>

definition upmodel_out_channels :: "DynamicUnet \<Rightarrow> error + nat" where
  "upmodel_out_channels d =
     bind_err (getattr (upmodel d)) (\<lambda>u.
     bind_err (py_index u (- 1)) (\<lambda>blk. Inr (out_channels (conv2 blk))))"

text \<open>Lines 120 to 122: the extra block, when the input is not as large as the first activation.\<close>

definition init_extra_block :: "DynamicUnet \<Rightarrow> shape \<Rightarrow> DynamicUnet \<times> (error + unit)" where
  "init_extra_block d imsize =
     (case bind_err (getattr (sfs_szs d)) (\<lambda>ss. py_index ss 0) of
        Inl e \<Rightarrow> (d, Inl e)
      | Inr s0 \<Rightarrow>
          (if imsize \<noteq> last2 s0
           then (case upmodel_out_channels d of
                   Inl e \<Rightarrow> (d, Inl e)
                 | Inr extra_in_c \<Rightarrow>
                     (d\<lparr>extra_block := Some (ConvTranspose2d extra_in_c extra_in_c 2 2 0)\<rparr>,
                      Inr ()))
           else (d, Inr ())))"

text \<open>Lines 124 and 125: the final 1x1 convolution.\<close>

definition init_final_conv :: "DynamicUnet \<Rightarrow> DynamicUnet \<times> (error + unit)" where
  "init_final_conv d =
     (case upmodel_out_channels d of
        Inl e \<Rightarrow> (d, Inl e)
      | Inr final_in_c \<Rightarrow>
          (d\<lparr>final_conv := Some (Conv2d final_in_c (n_classes d) 1 1 0)\<rparr>, Inr ()))"

text \<open>Lines 111 to 125: the decoder blocks, the extra block and the final convolution.\<close>

definition init_upmodel :: "DynamicUnet \<Rightarrow> shape \<Rightarrow> shape \<Rightarrow> DynamicUnet \<times> (error + unit)" where
  "init_upmodel d imsize x =
     (case getattr (sfs_idxs d) of
        Inl e \<Rightarrow> (d, Inl e)
      | Inr idxs \<Rightarrow>
          (case build_upmodel (sfs_szs d) (sfs d) (rev idxs) [] x (upmodel d) of
             (cur, Inl e) \<Rightarrow> (d\<lparr>upmodel := cur\<rparr>, Inl e)
           | (cur, Inr x_copy) \<Rightarrow>
               (case init_extra_block (d\<lparr>upmodel := cur\<rparr>) imsize of
                  (d2, Inl e) \<Rightarrow> (d2, Inl e)
                | (d2, Inr u) \<Rightarrow> init_final_conv d2)))"

text \<open>Lines 128 and 129: the cached blocks, each with the activation of its skip index.\<close>

fun run_upsample :: "(UnetBlock \<times> nat) list \<Rightarrow> SaveFeatures list \<Rightarrow> shape \<Rightarrow> error + shape" where
  "run_upsample [] hs x = Inr x"
| "run_upsample ((block, idx) # rest) hs x =
     (case py_index hs (int idx) of
        Inl e \<Rightarrow> Inl e
      | Inr h \<Rightarrow>
          (case UnetBlock_forward block x (features h) of
             Inl e \<Rightarrow> Inl e
           | Inr y \<Rightarrow> run_upsample rest hs y))"

definition run_decoder :: "DynamicUnet \<Rightarrow> shape \<Rightarrow> error + shape" where
  "run_decoder d x =
     bind_err (getattr (upmodel d)) (\<lambda>u.
     bind_err (getattr (sfs_idxs d)) (\<lambda>idxs.
     run_upsample (zip u (rev idxs)) (sfs d) x))"

text \<open>Lines 130 and 131.\<close>

definition apply_extra :: "DynamicUnet \<Rightarrow> shape \<Rightarrow> error + shape" where
  "apply_extra d x =
     (case extra_block d of None \<Rightarrow> Inr x | Some b \<Rightarrow> ConvTranspose2d_forward b x)"

text \<open>Lines 133 to 135.\<close>

definition apply_final :: "DynamicUnet \<Rightarrow> shape \<Rightarrow> error + shape" where
  "apply_final d x =
     bind_err (getattr (final_conv d)) (\<lambda>c.
     bind_err (Conv2d_forward c x) (\<lambda>out. Inr (sigmoid out)))"

definition forward :: "DynamicUnet \<Rightarrow> shape \<Rightarrow> DynamicUnet \<times> (error + shape)" where
  "forward d x0 =
     (let imsize = last2 x0 in
      case encoder_forward (encoder d) (sfs d) x0 of
        (hs, Inl e) \<Rightarrow> (d\<lparr>sfs := hs\<rparr>, Inl e)
      | (hs, Inr xe) \<Rightarrow>
          (case (if middle_conv (d\<lparr>sfs := hs\<rparr>) = None then init_middle (d\<lparr>sfs := hs\<rparr>)
                 else (d\<lparr>sfs := hs\<rparr>, Inr ())) of
             (d1, Inl e) \<Rightarrow> (d1, Inl e)
           | (d1, Inr u1) \<Rightarrow>
               (case bind_err (getattr (middle_conv d1)) (\<lambda>m. Sequential_forward m (relu xe)) of
                  Inl e \<Rightarrow> (d1, Inl e)
                | Inr xm \<Rightarrow>
                    (case (if upmodel d1 = None then init_upmodel d1 imsize xm
                           else (d1, Inr ())) of
                       (d2, Inl e) \<Rightarrow> (d2, Inl e)
                     | (d2, Inr u2) \<Rightarrow>
                         (d2, bind_err (run_decoder d2 xm) (\<lambda>xu.
                              bind_err (apply_extra d2 xu) (\<lambda>xx.
                              apply_final d2 xx)))))))"

text \<open>
  A caller that invokes \<^verbatim>\<open>forward\<close> on one instance with one input after another,
  whatever each call returns or raises: the instance after the last call.
\<close>

fun forward_calls :: "DynamicUnet \<Rightarrow> shape list \<Rightarrow> DynamicUnet" where
  "forward_calls d [] = d"
| "forward_calls d (x # xs) = forward_calls (fst (forward d x)) xs"

text \<open>The fields that make up the decoder topology.\<close>

definition topology ::
  "DynamicUnet \<Rightarrow> nat list option \<times> shape list option \<times> layer list option \<times>
     UnetBlock list option \<times> ConvTranspose2d option \<times> Conv2d option" where
  "topology d = (sfs_idxs d, sfs_szs d, middle_conv d, upmodel d, extra_block d, final_conv d)"

section \<open>Example encoders\<close>

text \<open>
  Small encoders made of convolutions, for evaluating the model. On a 32x32 input the
  activations of \<open>encoder_same_size\<close> have sizes 32, 32, 16, 8 (the first as large as the
  input), those of \<open>encoder_downsampling_first\<close> 16, 16, 8, 4 (the first stage already
  halves the input, as the trunk that \<^verbatim>\<open>get_dunet\<close> builds does), those of
  \<open>encoder_16_8_8_4\<close> 16, 8, 8, 4, and those of \<open>encoder_constant\<close> 32, 32.
\<close>

definition encoder_same_size :: "stage list" where
  "encoder_same_size =
     [Conv2d_forward (Conv2d 3 8 3 1 1), Conv2d_forward (Conv2d 8 8 3 1 1),
      Conv2d_forward (Conv2d 8 16 3 2 1), Conv2d_forward (Conv2d 16 32 3 2 1)]"

definition encoder_downsampling_first :: "stage list" where
  "encoder_downsampling_first =
     [Conv2d_forward (Conv2d 3 8 7 2 3), Conv2d_forward (Conv2d 8 8 3 1 1),
      Conv2d_forward (Conv2d 8 16 3 2 1), Conv2d_forward (Conv2d 16 32 3 2 1)]"

definition encoder_16_8_8_4 :: "stage list" where
  "encoder_16_8_8_4 =
     [Conv2d_forward (Conv2d 3 8 3 2 1), Conv2d_forward (Conv2d 8 16 3 2 1),
      Conv2d_forward (Conv2d 16 16 3 1 1), Conv2d_forward (Conv2d 16 32 3 2 1)]"

definition encoder_constant :: "stage list" where
  "encoder_constant = [Conv2d_forward (Conv2d 3 8 3 1 1), Conv2d_forward (Conv2d 8 8 3 1 1)]"

section \<open>Basic facts\<close>

lemma py_index_last: "py_index (p @ [x]) (- 1) = Inr x"
  by (simp add: py_index_def)

lemma py_index_0: "py_index (x # xs) 0 = Inr x"
  by (simp add: py_index_def)

lemma py_index_1: "py_index (x # y # xs) 1 = Inr y"
  by (simp add: py_index_def)

lemma py_index_Nil: "py_index [] i = Inl IndexError"
  by (simp add: py_index_def)

lemma py_index_single_1: "py_index [x] 1 = Inl IndexError"
  by (simp add: py_index_def)

lemma trailing_size:
  "bind_err (features_size \<lparr>features = Some (p @ [x])\<rparr>) (\<lambda>sz. py_index sz (- 1)) = Inr x"
  by (simp add: bind_err_def features_size_def getattr_def py_index_last)

lemma map_err_recorded:
  "\<forall>s\<in>set hs. \<exists>sh. features s = Some sh \<and> sh \<noteq> [] \<Longrightarrow>
   \<exists>szs. map_err (\<lambda>sfs_feats. bind_err (features_size sfs_feats) (\<lambda>sz. py_index sz (- 1))) hs = Inr szs
         \<and> length szs = length hs"
proof (induction hs)
  case Nil
  then show ?case by simp
next
  case (Cons a hs)
  then obtain sh where sh: "features a = Some sh" "sh \<noteq> []" by auto
  then have "py_index sh (- 1) = Inr (last sh)"
    by (metis append_butlast_last_id py_index_last)
  with sh Cons show ?case
    by (auto simp: bind_err_def features_size_def getattr_def)
qed

lemma py_index_ok_iff: "(\<exists>v. py_index xs (int k) = Inr v) \<longleftrightarrow> k < length xs"
  by (auto simp: py_index_def)

lemma get_sfs_idxs_single:
  "features s = Some sh \<Longrightarrow> get_sfs_idxs [s] True = Inl IndexError"
  by (cases "sh = []")
     (auto simp: get_sfs_idxs_def bind_err_def features_size_def getattr_def py_index_def
           split: sum.splits)

lemma get_sfs_idxs_total_iff:
  assumes "\<forall>s\<in>set hs. \<exists>sh. features s = Some sh \<and> sh \<noteq> []"
  shows "(\<exists>r. get_sfs_idxs hs True = Inr r) \<longleftrightarrow> 2 \<le> length hs"
proof -
  from map_err_recorded [OF assms] obtain szs where
    szs: "map_err (\<lambda>sfs_feats. bind_err (features_size sfs_feats) (\<lambda>sz. py_index sz (- 1))) hs = Inr szs"
    and len: "length szs = length hs" by blast
  have "(\<exists>r. get_sfs_idxs hs True = Inr r) \<longleftrightarrow> (\<exists>v. py_index szs (int 1) = Inr v)"
    using szs by (auto simp: get_sfs_idxs_def Let_def py_index_def split: sum.splits)
  then show ?thesis using len by (simp only: py_index_ok_iff) auto
qed

lemma convT_out_2: "0 < h \<Longrightarrow> convT_out 2 2 0 h = Inr (2 * h)"
  by (simp add: convT_out_def Let_def nat_eq_iff algebra_simps)

lemma conv_out_3: "0 < h \<Longrightarrow> conv_out 3 (Suc 0) (Suc 0) h = Inr h"
  by (simp add: conv_out_def)

lemma UnetBlock_forward_ok:
  assumes "2 \<le> u" "0 < x" "0 < n" "0 < h" "0 < w"
  shows "UnetBlock_forward (UnetBlock_init u x) [n, u, h, w] (Some [n, x, 2 * h, 2 * w]) =
         Inr [n, (x + u div 2) div 2, 2 * h, 2 * w]"
proof -
  from assms have p: "0 < u" "0 < u div 2" "0 < x + u div 2" "0 < (x + u div 2) div 2"
    by simp_all
  with assms(3-5) show ?thesis
    by (simp add: UnetBlock_forward_def UnetBlock_init_def bind_err_def convT_out_2 conv_out_3
        torch_cat_def relu_def add.commute)
qed

lemma convT_out_2_inv: "convT_out 2 2 0 h = Inr h' \<Longrightarrow> h' = 2 * h"
  by (auto simp: convT_out_def Let_def split: if_splits)

lemma conv_out_3_inv: "conv_out 3 (Suc 0) (Suc 0) h = Inr h' \<Longrightarrow> h' = h"
  by (auto simp: conv_out_def split: if_splits)

lemma bind_err_Inr: "bind_err m f = Inr y \<longleftrightarrow> (\<exists>v. m = Inr v \<and> f v = Inr y)"
  by (cases m) (auto simp: bind_err_def)

lemma ConvTranspose2d_forward_Inr:
  "ConvTranspose2d_forward c x = Inr y \<Longrightarrow> length y = 4 \<Longrightarrow>
   \<exists>n h w h' w'. x = [n, t_in_channels c, h, w] \<and> y = [n, t_out_channels c, h', w'] \<and>
      0 < t_in_channels c \<and> 0 < t_out_channels c \<and>
      convT_out (t_kernel_size c) (t_stride c) (t_padding c) h = Inr h' \<and>
      convT_out (t_kernel_size c) (t_stride c) (t_padding c) w = Inr w'"
  by (induction c x rule: ConvTranspose2d_forward.induct)
     (auto simp: bind_err_Inr split: if_splits)

lemma ConvTranspose2d_forward_empty:
  "t_in_channels c = 0 \<or> t_out_channels c = 0 \<Longrightarrow> ConvTranspose2d_forward c x = Inl RuntimeError"
  by (induction c x rule: ConvTranspose2d_forward.induct) auto

lemma Conv2d_forward_Inr:
  "Conv2d_forward c x = Inr y \<Longrightarrow> length y = 4 \<Longrightarrow>
   \<exists>n h w h' w'. x = [n, in_channels c, h, w] \<and> y = [n, out_channels c, h', w'] \<and>
      0 < in_channels c \<and> 0 < out_channels c \<and>
      conv_out (kernel_size c) (stride c) (padding c) h = Inr h' \<and>
      conv_out (kernel_size c) (stride c) (padding c) w = Inr w'"
  by (induction c x rule: Conv2d_forward.induct)
     (auto simp: bind_err_Inr split: if_splits)

lemma BatchNorm2d_forward_Inr:
  "BatchNorm2d_forward b x = Inr y \<Longrightarrow> y = x \<and> (\<exists>n h w. x = [n, num_features b, h, w])"
  by (induction b x rule: BatchNorm2d_forward.induct) (auto split: if_splits)

lemma torch_cat_Inr:
  "torch_cat a b = Inr c \<Longrightarrow>
   2 \<le> length a \<and> length b = length a \<and> a[1 := 0] = b[1 := 0] \<and> c = a[1 := a ! 1 + b ! 1]"
  by (auto simp: torch_cat_def split: if_splits)

lemma UnetBlock_forward_shape:
  assumes "UnetBlock_forward (UnetBlock_init u x) up_in x_in = Inr out"
  shows "\<exists>n h w. up_in = [n, u, h, w] \<and> x_in = Some [n, x, 2 * h, 2 * w] \<and>
           out = [n, (x + u div 2) div 2, 2 * h, 2 * w] \<and>
           0 < u div 2 \<and> 0 < (x + u div 2) div 2"
proof -
  from assms obtain up_out cat_x x1 x2 where
    a: "ConvTranspose2d_forward (ConvTranspose2d u (u div 2) 2 2 0) up_in = Inr up_out"
    and b: "(case x_in of None \<Rightarrow> Inl TypeError | Some xs \<Rightarrow> torch_cat up_out xs) = Inr cat_x"
    and c: "Conv2d_forward (Conv2d (x + u div 2) ((x + u div 2) div 2) 3 1 1) cat_x = Inr x1"
    and d: "Conv2d_forward (Conv2d ((x + u div 2) div 2) ((x + u div 2) div 2) 3 1 1) (relu x1) = Inr x2"
    and e: "BatchNorm2d_forward (BatchNorm2d ((x + u div 2) div 2) True) (relu x2) = Inr out"
    by (auto simp: UnetBlock_forward_def UnetBlock_init_def bind_err_Inr)
  from BatchNorm2d_forward_Inr [OF e] have o: "out = x2" and l2: "length x2 = 4"
    by (auto simp: relu_def)
  from Conv2d_forward_Inr [OF d l2] obtain n2 h2 w2 where
    x1: "x1 = [n2, (x + u div 2) div 2, h2, w2]" and x2: "x2 = [n2, (x + u div 2) div 2, h2, w2]"
    and p2: "0 < (x + u div 2) div 2"
    by (auto simp: relu_def dest!: conv_out_3_inv)
  from x1 have l1: "length x1 = 4" by simp
  from Conv2d_forward_Inr [OF c l1] x1 have cx: "cat_x = [n2, x + u div 2, h2, w2]"
    by (auto dest!: conv_out_3_inv)
  from b obtain xs where xs: "x_in = Some xs" "torch_cat up_out xs = Inr cat_x"
    by (cases x_in) auto
  from torch_cat_Inr [OF xs(2)] have t: "length xs = length up_out"
    and eq: "up_out[1 := 0] = xs[1 := 0]" and t3: "cat_x = up_out[1 := up_out ! 1 + xs ! 1]"
    by simp_all
  from t3 have "length cat_x = length up_out" by simp
  with cx t have lu: "length up_out = 4" "length xs = 4" by simp_all
  from t3 cx have cu: "[n2, x + u div 2, h2, w2] = up_out[1 := up_out ! 1 + xs ! 1]" by simp
  from ConvTranspose2d_forward_Inr [OF a lu(1)] obtain n h w where
    up: "up_in = [n, u, h, w]" "up_out = [n, u div 2, 2 * h, 2 * w]" and p1: "0 < u div 2"
    by (auto dest!: convT_out_2_inv)
  from lu(2) obtain a0 a1 a2 a3 where xs4: "xs = [a0, a1, a2, a3]"
    by (cases xs; cases "tl xs"; cases "tl (tl xs)"; cases "tl (tl (tl xs))") auto
  from eq up(2) xs4 have "a0 = n" "a2 = 2 * h" "a3 = 2 * w" by simp_all
  moreover from cu up(2) xs4 have "n2 = n" "h2 = 2 * h" "w2 = 2 * w" "x + u div 2 = u div 2 + a1"
    by simp_all
  ultimately have "xs = [n, x, 2 * h, 2 * w]" "x2 = [n, (x + u div 2) div 2, 2 * h, 2 * w]"
    using xs4 x2 by simp_all
  with up(1) xs(1) o p1 p2 show ?thesis by simp
qed

lemma UnetBlock_forward_narrow:
  "u < 2 \<Longrightarrow> UnetBlock_forward (UnetBlock_init u x) up_in x_in = Inl RuntimeError"
  by (simp add: UnetBlock_forward_def UnetBlock_init_def bind_err_def
      ConvTranspose2d_forward_empty)

lemma init_middle_frame:
  assumes "init_middle d = (d', r)"
  shows "sfs d' = sfs d \<and> encoder d' = encoder d \<and> n_classes d' = n_classes d \<and>
         upmodel d' = upmodel d \<and> extra_block d' = extra_block d \<and> final_conv d' = final_conv d"
  using assms by (auto simp: init_middle_def Let_def split: sum.splits)

lemma init_middle_Inr:
  assumes "init_middle d = (d', Inr u)"
  shows "\<exists>szs idxs c. map_err features_size (sfs d) = Inr szs \<and> sfs_szs d' = Some szs \<and>
           get_sfs_idxs (sfs d) (last_only d) = Inr idxs \<and> sfs_idxs d' = Some idxs \<and>
           bind_err (py_index szs (- 1)) (\<lambda>s. py_index s 1) = Inr c \<and>
           middle_conv d' = Some (conv_bn_relu c (c * 2) 3 1 1 @ conv_bn_relu (c * 2) c 3 1 1)"
  using assms by (auto simp: init_middle_def Let_def split: sum.splits)

lemma init_middle_Inl:
  assumes "init_middle d = (d', Inl e)"
  shows "middle_conv d' = middle_conv d"
  using assms by (auto simp: init_middle_def Let_def split: sum.splits)

lemma build_upmodel_cur:
  "build_upmodel szs hs idxs upm x cur = (cur', r) \<Longrightarrow>
   cur' = cur \<or> (\<exists>blocks. cur' = Some blocks \<and> blocks \<noteq> [])"
proof (induction idxs arbitrary: upm x cur)
  case Nil
  then show ?case by simp
next
  case (Cons idx idxs)
  show ?case
  proof (cases "cur' = cur")
    case True
    then show ?thesis by simp
  next
    case False
    with Cons.prems obtain up_in_c x_in_c y where
      "build_upmodel szs hs idxs (upm @ [UnetBlock_init up_in_c x_in_c]) y
         (Some (upm @ [UnetBlock_init up_in_c x_in_c])) = (cur', r)"
      by (auto simp: Let_def split: sum.splits)
    from Cons.IH [OF this] show ?thesis by auto
  qed
qed

lemma build_upmodel_Inr:
  "build_upmodel szs hs idxs upm x cur = (cur', Inr y) \<Longrightarrow> idxs \<noteq> [] \<Longrightarrow>
   \<exists>blocks. cur' = Some blocks \<and> blocks \<noteq> [] \<and> 0 < out_channels (conv2 (last blocks))"
proof (induction idxs arbitrary: upm x cur)
  case Nil
  then show ?case by simp
next
  case (Cons idx idxs)
  from Cons.prems(1) obtain up_in_c x_in_c and h :: SaveFeatures and z where
    fw: "UnetBlock_forward (UnetBlock_init up_in_c x_in_c) x (features h) = Inr z"
    and step: "build_upmodel szs hs idxs (upm @ [UnetBlock_init up_in_c x_in_c]) z
         (Some (upm @ [UnetBlock_init up_in_c x_in_c])) = (cur', Inr y)"
    by (auto simp: Let_def split: sum.splits)
  show ?case
  proof (cases "idxs = []")
    case True
    with step have c: "cur' = Some (upm @ [UnetBlock_init up_in_c x_in_c])" by simp
    from UnetBlock_forward_shape [OF fw] have "0 < (x_in_c + up_in_c div 2) div 2" by blast
    then have "0 < out_channels (conv2 (UnetBlock_init up_in_c x_in_c))"
      by (simp add: UnetBlock_init_def)
    with c show ?thesis by simp
  next
    case False
    from Cons.IH [OF step False] show ?thesis .
  qed
qed

lemma upmodel_out_channels_cong:
  "upmodel d' = upmodel d \<Longrightarrow> upmodel_out_channels d' = upmodel_out_channels d"
  by (simp add: upmodel_out_channels_def)

lemma upmodel_out_channels_None:
  "upmodel d = None \<Longrightarrow> upmodel_out_channels d = Inl AttributeError"
  by (simp add: upmodel_out_channels_def getattr_def bind_err_def)

lemma upmodel_out_channels_Inr:
  "upmodel_out_channels d = Inr c \<Longrightarrow>
   \<exists>blocks blk. upmodel d = Some blocks \<and> py_index blocks (- 1) = Inr blk \<and>
      c = out_channels (conv2 blk)"
  by (cases "upmodel d") (auto simp: upmodel_out_channels_def getattr_def bind_err_Inr)

lemma init_extra_block_frame:
  assumes "init_extra_block d im = (d', r)"
  shows "sfs d' = sfs d \<and> encoder d' = encoder d \<and> n_classes d' = n_classes d \<and>
         sfs_szs d' = sfs_szs d \<and> sfs_idxs d' = sfs_idxs d \<and> middle_conv d' = middle_conv d \<and>
         upmodel d' = upmodel d \<and> final_conv d' = final_conv d"
  using assms
  by (auto simp: init_extra_block_def split: sum.splits if_splits)

lemma init_extra_block_Inl:
  assumes "init_extra_block d im = (d', Inl e)"
  shows "d' = d"
  using assms
  by (auto simp: init_extra_block_def split: sum.splits if_splits)

lemma init_extra_block_Inr:
  assumes "init_extra_block d im = (d', Inr u)"
  shows "\<exists>szs s0. sfs_szs d = Some szs \<and> py_index szs 0 = Inr s0 \<and>
           (if im \<noteq> last2 s0
            then \<exists>c. upmodel_out_channels d = Inr c \<and>
                     d' = d\<lparr>extra_block := Some (ConvTranspose2d c c 2 2 0)\<rparr>
            else d' = d)"
proof (cases "sfs_szs d")
  case None
  with assms show ?thesis
    by (simp add: init_extra_block_def getattr_def bind_err_def)
next
  case (Some szs)
  with assms obtain s0 where s0: "py_index szs 0 = Inr s0"
    by (cases "py_index szs 0") (auto simp: init_extra_block_def getattr_def bind_err_def)
  with Some assms show ?thesis
    by (auto simp: init_extra_block_def getattr_def bind_err_def split: sum.splits if_splits)
qed

lemma init_final_conv_frame:
  assumes "init_final_conv d = (d', r)"
  shows "sfs d' = sfs d \<and> encoder d' = encoder d \<and> n_classes d' = n_classes d \<and>
         sfs_szs d' = sfs_szs d \<and> sfs_idxs d' = sfs_idxs d \<and> middle_conv d' = middle_conv d \<and>
         upmodel d' = upmodel d \<and> extra_block d' = extra_block d"
  using assms
  by (auto simp: init_final_conv_def split: sum.splits)

lemma init_final_conv_Inl:
  assumes "init_final_conv d = (d', Inl e)"
  shows "d' = d"
  using assms
  by (auto simp: init_final_conv_def split: sum.splits)

lemma init_final_conv_Inr:
  assumes "init_final_conv d = (d', Inr u)"
  shows "\<exists>c. upmodel_out_channels d = Inr c \<and>
           d' = d\<lparr>final_conv := Some (Conv2d c (n_classes d) 1 1 0)\<rparr>"
  using assms
  by (auto simp: init_final_conv_def split: sum.splits)


lemma init_upmodel_cases:
  assumes "init_upmodel d im x = (d', r)"
  obtains (noidx) "sfs_idxs d = None" "d' = d" "r = Inl AttributeError"
  | (loop) idxs cur e where "sfs_idxs d = Some idxs"
      "build_upmodel (sfs_szs d) (sfs d) (rev idxs) [] x (upmodel d) = (cur, Inl e)"
      "d' = d\<lparr>upmodel := cur\<rparr>" "r = Inl e"
  | (extra) idxs cur xc e where "sfs_idxs d = Some idxs"
      "build_upmodel (sfs_szs d) (sfs d) (rev idxs) [] x (upmodel d) = (cur, Inr xc)"
      "init_extra_block (d\<lparr>upmodel := cur\<rparr>) im = (d', Inl e)" "r = Inl e"
  | (final) idxs cur xc d2 u where "sfs_idxs d = Some idxs"
      "build_upmodel (sfs_szs d) (sfs d) (rev idxs) [] x (upmodel d) = (cur, Inr xc)"
      "init_extra_block (d\<lparr>upmodel := cur\<rparr>) im = (d2, Inr u)"
      "init_final_conv d2 = (d', r)"
proof (cases "sfs_idxs d")
  case None
  with assms have "d' = d" "r = Inl AttributeError"
    by (simp_all add: init_upmodel_def getattr_def)
  with None show ?thesis by (rule noidx)
next
  case (Some idxs)
  obtain cur rb where b: "build_upmodel (sfs_szs d) (sfs d) (rev idxs) [] x (upmodel d) = (cur, rb)"
    by (cases "build_upmodel (sfs_szs d) (sfs d) (rev idxs) [] x (upmodel d)")
  show ?thesis
  proof (cases rb)
    case (Inl e)
    with assms Some b have "d' = d\<lparr>upmodel := cur\<rparr>" "r = Inl e"
      by (simp_all add: init_upmodel_def getattr_def)
    with Some b Inl show ?thesis by (auto intro: loop)
  next
    case (Inr xc)
    obtain d2 r2 where x: "init_extra_block (d\<lparr>upmodel := cur\<rparr>) im = (d2, r2)"
      by (cases "init_extra_block (d\<lparr>upmodel := cur\<rparr>) im")
    show ?thesis
    proof (cases r2)
      case (Inl e)
      with assms Some b Inr x have "d' = d2" "r = Inl e"
        by (simp_all add: init_upmodel_def getattr_def)
      with Some b Inr x Inl show ?thesis by (auto intro: extra)
    next
      case r2: (Inr u)
      with assms Some b Inr x have "init_final_conv d2 = (d', r)"
        by (simp add: init_upmodel_def getattr_def)
      with Some b Inr x r2 show ?thesis by (auto intro: final)
    qed
  qed
qed

lemma init_upmodel_frame:
  assumes "init_upmodel d im x = (d', r)"
  shows "sfs d' = sfs d \<and> encoder d' = encoder d \<and> n_classes d' = n_classes d \<and>
         sfs_szs d' = sfs_szs d \<and> sfs_idxs d' = sfs_idxs d \<and> middle_conv d' = middle_conv d"
  using assms
proof (cases rule: init_upmodel_cases)
  case noidx
  then show ?thesis by simp
next
  case (loop idxs cur e)
  then show ?thesis by simp
next
  case (extra idxs cur xc e)
  from init_extra_block_frame [OF extra(3)] show ?thesis by simp
next
  case (final idxs cur xc d2 u)
  from init_extra_block_frame [OF final(3)] init_final_conv_frame [OF final(4)]
  show ?thesis by simp
qed

lemma init_upmodel_Inl:
  assumes "init_upmodel d im x = (d', Inl e)"
  shows "extra_block d' = extra_block d \<and> final_conv d' = final_conv d"
  using assms
proof (cases rule: init_upmodel_cases)
  case noidx
  then show ?thesis by simp
next
  case (loop idxs cur e)
  then show ?thesis by simp
next
  case (extra idxs cur xc e)
  from init_extra_block_Inl [OF extra(3)] show ?thesis by simp
next
  case (final idxs cur xc d2 u)
  from init_final_conv_Inl [OF final(4)] have eq: "d' = d2" .
  from init_extra_block_Inr [OF final(3)] obtain szs s0 where
    c: "if im \<noteq> last2 s0
        then \<exists>c. upmodel_out_channels (d\<lparr>upmodel := cur\<rparr>) = Inr c \<and>
                 d2 = d\<lparr>upmodel := cur\<rparr>\<lparr>extra_block := Some (ConvTranspose2d c c 2 2 0)\<rparr>
        else d2 = d\<lparr>upmodel := cur\<rparr>" by blast
  show ?thesis
  proof (cases "im \<noteq> last2 s0")
    case True
    with c obtain c' where c': "upmodel_out_channels (d\<lparr>upmodel := cur\<rparr>) = Inr c'"
      "d2 = d\<lparr>upmodel := cur\<rparr>\<lparr>extra_block := Some (ConvTranspose2d c' c' 2 2 0)\<rparr>" by auto
    then have "upmodel_out_channels d2 = Inr c'"
      by (simp add: upmodel_out_channels_def)
    with final(4) eq show ?thesis by (simp add: init_final_conv_def)
  next
    case False
    with c eq show ?thesis by simp
  qed
qed

lemma init_upmodel_Inr:
  assumes "init_upmodel d im x = (d', Inr u)"
  shows "\<exists>szs s0 blocks blk. sfs_szs d = Some szs \<and> py_index szs 0 = Inr s0 \<and>
           upmodel d' = Some blocks \<and> py_index blocks (- 1) = Inr blk \<and>
           final_conv d' = Some (Conv2d (out_channels (conv2 blk)) (n_classes d) 1 1 0) \<and>
           extra_block d' =
             (if im \<noteq> last2 s0
              then Some (ConvTranspose2d (out_channels (conv2 blk)) (out_channels (conv2 blk)) 2 2 0)
              else extra_block d)"
  using assms
proof (cases rule: init_upmodel_cases)
  case (final idxs cur xc d2 u')
  from init_final_conv_Inr [OF final(4)] obtain c where
    c: "upmodel_out_channels d2 = Inr c" "d' = d2\<lparr>final_conv := Some (Conv2d c (n_classes d2) 1 1 0)\<rparr>"
    by blast
  from upmodel_out_channels_Inr [OF c(1)] obtain blocks blk where
    blk: "upmodel d2 = Some blocks" "py_index blocks (- 1) = Inr blk" "c = out_channels (conv2 blk)"
    by blast
  from init_extra_block_frame [OF final(3)] have fr: "n_classes d2 = n_classes d" "upmodel d2 = cur"
    by simp_all
  from init_extra_block_Inr [OF final(3)] obtain szs s0 where
    s0: "sfs_szs d = Some szs" "py_index szs 0 = Inr s0"
    and x: "if im \<noteq> last2 s0
        then \<exists>c. upmodel_out_channels (d\<lparr>upmodel := cur\<rparr>) = Inr c \<and>
                 d2 = d\<lparr>upmodel := cur\<rparr>\<lparr>extra_block := Some (ConvTranspose2d c c 2 2 0)\<rparr>
        else d2 = d\<lparr>upmodel := cur\<rparr>" by auto
  have "extra_block d2 =
             (if im \<noteq> last2 s0
              then Some (ConvTranspose2d (out_channels (conv2 blk)) (out_channels (conv2 blk)) 2 2 0)
              else extra_block d)"
  proof (cases "im \<noteq> last2 s0")
    case True
    with x obtain c' where c': "upmodel_out_channels (d\<lparr>upmodel := cur\<rparr>) = Inr c'"
      "d2 = d\<lparr>upmodel := cur\<rparr>\<lparr>extra_block := Some (ConvTranspose2d c' c' 2 2 0)\<rparr>" by auto
    then have "upmodel_out_channels d2 = Inr c'"
      by (simp add: upmodel_out_channels_def)
    with c(1) blk(3) have "c' = out_channels (conv2 blk)" by simp
    with c'(2) True show ?thesis by simp
  next
    case False
    with x show ?thesis by simp
  qed
  with s0 blk c fr show ?thesis by simp
qed simp_all

lemma init_upmodel_Inr_pos:
  assumes "init_upmodel d im x = (d', Inr u)" "upmodel d = None"
  shows "\<exists>blocks. upmodel d' = Some blocks \<and> blocks \<noteq> [] \<and>
           0 < out_channels (conv2 (last blocks))"
  using assms(1)
proof (cases rule: init_upmodel_cases)
  case (final idxs cur xc d2 u')
  from init_final_conv_Inr [OF final(4)] obtain c where
    c: "upmodel_out_channels d2 = Inr c" by blast
  from init_extra_block_frame [OF final(3)] have fr: "upmodel d2 = cur" by simp
  from init_final_conv_frame [OF final(4)] fr have fr': "upmodel d' = cur" by simp
  from upmodel_out_channels_Inr [OF c] fr have cu: "cur \<noteq> None" by auto
  have "rev idxs \<noteq> []"
  proof
    assume "rev idxs = []"
    with final(2) assms(2) have "cur = None" by simp
    with cu show False by simp
  qed
  from build_upmodel_Inr [OF final(2) this] fr' show ?thesis by simp
qed simp_all

lemma init_upmodel_empty:
  assumes "init_upmodel d im x = (d', r)" "sfs_idxs d = Some []" "upmodel d = None"
  shows "d' = d \<and> (\<exists>e. r = Inl e) \<and>
         (\<forall>szs. sfs_szs d = Some szs \<and> szs \<noteq> [] \<longrightarrow> r = Inl AttributeError)"
proof -
  have d: "d\<lparr>upmodel := None\<rparr> = d" using assms(3) by simp
  have oc: "upmodel_out_channels d = Inl AttributeError"
    using assms(3) by (rule upmodel_out_channels_None)
  have "init_upmodel d im x =
      (case init_extra_block (d\<lparr>upmodel := None\<rparr>) im of
         (d2, Inl e) \<Rightarrow> (d2, Inl e) | (d2, Inr u) \<Rightarrow> init_final_conv d2)"
    using assms(2,3) by (simp add: init_upmodel_def getattr_def)
  then have "init_upmodel d im x =
      (case init_extra_block d im of (d2, Inl e) \<Rightarrow> (d2, Inl e) | (d2, Inr u) \<Rightarrow> init_final_conv d2)"
    by (simp only: d)
  moreover have "init_final_conv d = (d, Inl AttributeError)"
    using oc by (simp add: init_final_conv_def)
  moreover have "init_extra_block d im = (d, Inl IndexError) \<or> init_extra_block d im = (d, Inl AttributeError)
      \<or> init_extra_block d im = (d, Inr ())"
    using oc by (auto simp: init_extra_block_def getattr_def bind_err_def py_index_def
        split: sum.splits option.splits)
  moreover have "sfs_szs d = Some szs \<and> szs \<noteq> [] \<Longrightarrow> init_extra_block d im \<noteq> (d, Inl IndexError)" for szs
    using oc by (auto simp: init_extra_block_def getattr_def bind_err_def py_index_def
        split: sum.splits option.splits)
  ultimately show ?thesis using assms(1) by auto
qed


lemma forward_cases:
  assumes "forward d x = (d', r)"
  obtains (enc) hs e where "encoder_forward (encoder d) (sfs d) x = (hs, Inl e)"
      "d' = d\<lparr>sfs := hs\<rparr>" "r = Inl e"
  | (mid_init) hs xe e where "encoder_forward (encoder d) (sfs d) x = (hs, Inr xe)"
      "middle_conv d = None" "init_middle (d\<lparr>sfs := hs\<rparr>) = (d', Inl e)" "r = Inl e"
  | (mid) hs xe u e where "encoder_forward (encoder d) (sfs d) x = (hs, Inr xe)"
      "(if middle_conv d = None then init_middle (d\<lparr>sfs := hs\<rparr>)
        else (d\<lparr>sfs := hs\<rparr>, Inr ())) = (d', Inr u)"
      "bind_err (getattr (middle_conv d')) (\<lambda>m. Sequential_forward m (relu xe)) = Inl e"
      "r = Inl e"
  | (up_init) hs xe d1 u xm e where "encoder_forward (encoder d) (sfs d) x = (hs, Inr xe)"
      "(if middle_conv d = None then init_middle (d\<lparr>sfs := hs\<rparr>)
        else (d\<lparr>sfs := hs\<rparr>, Inr ())) = (d1, Inr u)"
      "bind_err (getattr (middle_conv d1)) (\<lambda>m. Sequential_forward m (relu xe)) = Inr xm"
      "upmodel d1 = None" "init_upmodel d1 (last2 x) xm = (d', Inl e)" "r = Inl e"
  | (run) hs xe d1 u xm u' where "encoder_forward (encoder d) (sfs d) x = (hs, Inr xe)"
      "(if middle_conv d = None then init_middle (d\<lparr>sfs := hs\<rparr>)
        else (d\<lparr>sfs := hs\<rparr>, Inr ())) = (d1, Inr u)"
      "bind_err (getattr (middle_conv d1)) (\<lambda>m. Sequential_forward m (relu xe)) = Inr xm"
      "(if upmodel d1 = None then init_upmodel d1 (last2 x) xm else (d1, Inr ())) = (d', Inr u')"
      "r = bind_err (run_decoder d' xm) (\<lambda>xu. bind_err (apply_extra d' xu) (\<lambda>xx. apply_final d' xx))"
proof -
  obtain hs re where e: "encoder_forward (encoder d) (sfs d) x = (hs, re)"
    by (cases "encoder_forward (encoder d) (sfs d) x")
  show ?thesis
  proof (cases re)
    case (Inl a)
    with assms e have "d' = d\<lparr>sfs := hs\<rparr>" "r = Inl a"
      by (simp_all add: forward_def)
    with e Inl show ?thesis by (auto intro: enc)
  next
    case (Inr xe)
    note xe = this
    obtain d1 r1 where m: "(if middle_conv d = None then init_middle (d\<lparr>sfs := hs\<rparr>)
        else (d\<lparr>sfs := hs\<rparr>, Inr ())) = (d1, r1)"
      by (cases "if middle_conv d = None then init_middle (d\<lparr>sfs := hs\<rparr>)
        else (d\<lparr>sfs := hs\<rparr>, Inr ())")
    have m': "(if middle_conv (d\<lparr>sfs := hs\<rparr>) = None then init_middle (d\<lparr>sfs := hs\<rparr>)
        else (d\<lparr>sfs := hs\<rparr>, Inr ())) = (d1, r1)"
      using m by simp
    show ?thesis
    proof (cases r1)
      case (Inl a)
      with assms e xe m' have dr: "d' = d1" "r = Inl a"
        by (simp_all add: forward_def)
      from m Inl have "middle_conv d = None" by (auto split: if_splits)
      with m Inl dr e xe show ?thesis by (auto intro: mid_init)
    next
      case (Inr u)
      note r1 = this
      show ?thesis
      proof (cases "bind_err (getattr (middle_conv d1)) (\<lambda>m. Sequential_forward m (relu xe))")
        case (Inl a)
        with assms e xe m' r1 have dr: "d' = d1" "r = Inl a"
          by (simp_all add: forward_def)
        with m r1 Inl e xe show ?thesis by (auto intro: mid)
      next
        case (Inr xm)
        note xm = this
        obtain d2 r2 where i: "(if upmodel d1 = None then init_upmodel d1 (last2 x) xm
             else (d1, Inr ())) = (d2, r2)"
          by (cases "if upmodel d1 = None then init_upmodel d1 (last2 x) xm else (d1, Inr ())")
        show ?thesis
        proof (cases r2)
          case (Inl a)
          with assms e xe m' r1 xm i have dr: "d' = d2" "r = Inl a"
            by (simp_all add: forward_def)
          from i Inl have "upmodel d1 = None" by (auto split: if_splits)
          with i Inl dr e xe m r1 xm show ?thesis by (auto intro: up_init)
        next
          case (Inr u')
          with assms e xe m' r1 xm i have dr: "d' = d2"
            "r = bind_err (run_decoder d2 xm) (\<lambda>xu. bind_err (apply_extra d2 xu) (\<lambda>xx. apply_final d2 xx))"
            by (auto simp: forward_def)
          have 1: "encoder_forward (encoder d) (sfs d) x = (hs, Inr xe)" using e xe by simp
          have 2: "(if middle_conv d = None then init_middle (d\<lparr>sfs := hs\<rparr>)
              else (d\<lparr>sfs := hs\<rparr>, Inr ())) = (d1, Inr u)" using m r1 by simp
          have 4: "(if upmodel d1 = None then init_upmodel d1 (last2 x) xm else (d1, Inr ())) =
              (d', Inr u')" using i Inr dr(1) by simp
          have 5: "r = bind_err (run_decoder d' xm)
              (\<lambda>xu. bind_err (apply_extra d' xu) (\<lambda>xx. apply_final d' xx))"
            using dr by simp
          show ?thesis by (rule run [OF 1 2 xm 4 5])
        qed
      qed
    qed
  qed
qed

section \<open>The first call and the later calls of forward\<close>

lemma map_err_features_size:
  "map_err features_size hs = Inr szs \<Longrightarrow> map features hs = map Some szs"
proof (induction hs arbitrary: szs)
  case Nil
  then show ?case by simp
next
  case (Cons h hs)
  then show ?case
    by (auto simp: features_size_def getattr_def split: sum.splits option.splits)
qed

lemma py_index_last_Inr: "py_index xs (- 1) = Inr v \<Longrightarrow> xs \<noteq> [] \<and> v = last xs"
  by (cases xs rule: rev_cases) (auto simp: py_index_def)

lemma init_middle_bottleneck:
  assumes "init_middle d = (d1, Inr u)"
  shows "\<exists>sh c. sfs d1 \<noteq> [] \<and> features (last (sfs d1)) = Some sh \<and> py_index sh 1 = Inr c \<and>
           map features (sfs d1) = map Some (the (sfs_szs d1)) \<and> sfs_szs d1 \<noteq> None \<and>
           the (sfs_szs d1) \<noteq> [] \<and> sfs_idxs d1 \<noteq> None \<and>
           middle_conv d1 =
             Some [ConvL (Conv2d c (c * 2) 3 1 1), ReLU, BatchNormL (BatchNorm2d (c * 2) True),
                   ConvL (Conv2d (c * 2) c 3 1 1), ReLU, BatchNormL (BatchNorm2d c True)]"
proof -
  from init_middle_Inr [OF assms] obtain szs idxs c where
    szs: "map_err features_size (sfs d) = Inr szs" "sfs_szs d1 = Some szs"
    and idxs: "sfs_idxs d1 = Some idxs"
    and c: "bind_err (py_index szs (- 1)) (\<lambda>s. py_index s 1) = Inr c"
    and m: "middle_conv d1 = Some (conv_bn_relu c (c * 2) 3 1 1 @ conv_bn_relu (c * 2) c 3 1 1)"
    by blast
  from init_middle_frame [OF assms] have fr: "sfs d1 = sfs d" by simp
  from c obtain sh where sh: "py_index szs (- 1) = Inr sh" "py_index sh 1 = Inr c"
    by (auto simp: bind_err_Inr)
  from py_index_last_Inr [OF sh(1)] have ne: "szs \<noteq> []" and l: "sh = last szs" by simp_all
  from map_err_features_size [OF szs(1)] have mp: "map features (sfs d) = map Some szs" .
  from mp ne have ne': "sfs d \<noteq> []" by auto
  have "features (last (sfs d)) = last (map features (sfs d))"
    using ne' by (simp add: last_map)
  also have "\<dots> = Some (last szs)" using mp ne by (simp add: last_map)
  finally have "features (last (sfs d)) = Some sh" using l by simp
  with ne' sh(2) m fr mp szs(2) ne idxs show ?thesis by (simp add: conv_bn_relu_def)
qed

lemma forward_cached:
  assumes "forward d x = (d', r)" "middle_conv d \<noteq> None" "upmodel d \<noteq> None"
  shows "topology d' = topology d"
  using assms(1)
proof (cases rule: forward_cases)
  case (enc hs e)
  then show ?thesis by (simp add: topology_def)
next
  case (mid_init hs xe e)
  with assms(2) show ?thesis by simp
next
  case (mid hs xe u e)
  with assms(2) show ?thesis by (auto simp: topology_def)
next
  case (up_init hs xe d1 u xm e)
  with assms(2,3) show ?thesis by auto
next
  case (run hs xe d1 u xm u')
  with assms(2,3) show ?thesis by (auto simp: topology_def)
qed

lemma forward_calls_cached:
  "middle_conv d \<noteq> None \<Longrightarrow> upmodel d \<noteq> None \<Longrightarrow> topology (forward_calls d xs) = topology d"
proof (induction xs arbitrary: d)
  case Nil
  then show ?case by simp
next
  case (Cons x xs)
  obtain d' r where f: "forward d x = (d', r)" by (cases "forward d x")
  from forward_cached [OF f Cons.prems] have t: "topology d' = topology d" .
  then have "middle_conv d' \<noteq> None" "upmodel d' \<noteq> None"
    using Cons.prems by (simp_all add: topology_def)
  from Cons.IH [OF this] f t show ?case by simp
qed

lemma run_decoder_Inr:
  "run_decoder d x = Inr y \<Longrightarrow> upmodel d \<noteq> None \<and> sfs_idxs d \<noteq> None"
  by (cases "upmodel d"; cases "sfs_idxs d")
     (auto simp: run_decoder_def getattr_def bind_err_def)

lemma apply_final_Inr:
  "apply_final d x = Inr y \<Longrightarrow> final_conv d \<noteq> None"
  by (cases "final_conv d") (auto simp: apply_final_def getattr_def bind_err_def)

lemma forward_Inr_run:
  assumes "forward d x = (d', Inr y)"
  shows "\<exists>hs xe d1 u u' xm xu xx.
           encoder_forward (encoder d) (sfs d) x = (hs, Inr xe) \<and>
           (if middle_conv d = None then init_middle (d\<lparr>sfs := hs\<rparr>)
            else (d\<lparr>sfs := hs\<rparr>, Inr ())) = (d1, Inr u) \<and>
           bind_err (getattr (middle_conv d1)) (\<lambda>m. Sequential_forward m (relu xe)) = Inr xm \<and>
           (if upmodel d1 = None then init_upmodel d1 (last2 x) xm else (d1, Inr ())) = (d', Inr u') \<and>
           run_decoder d' xm = Inr xu \<and> apply_extra d' xu = Inr xx \<and> apply_final d' xx = Inr y"
  using assms
proof (cases rule: forward_cases)
  case (run hs xe d1 u xm u')
  from run(5) have "bind_err (run_decoder d' xm)
      (\<lambda>xu. bind_err (apply_extra d' xu) (\<lambda>xx. apply_final d' xx)) = Inr y" by simp
  then obtain xu xx where
    "run_decoder d' xm = Inr xu" "apply_extra d' xu = Inr xx" "apply_final d' xx = Inr y"
    unfolding bind_err_Inr by blast
  with run(1-4) show ?thesis by blast
qed simp_all

lemma forward_Inr_fields:
  assumes "forward d x = (d', Inr y)"
  shows "sfs_idxs d' \<noteq> None \<and> middle_conv d' \<noteq> None \<and> upmodel d' \<noteq> None \<and>
         final_conv d' \<noteq> None \<and> (middle_conv d = None \<longrightarrow> sfs_szs d' \<noteq> None)"
proof -
  from forward_Inr_run [OF assms] obtain hs xe d1 u u' xm xu xx where
    m: "(if middle_conv d = None then init_middle (d\<lparr>sfs := hs\<rparr>)
            else (d\<lparr>sfs := hs\<rparr>, Inr ())) = (d1, Inr u)"
    and b: "bind_err (getattr (middle_conv d1)) (\<lambda>m. Sequential_forward m (relu xe)) = Inr xm"
    and i: "(if upmodel d1 = None then init_upmodel d1 (last2 x) xm else (d1, Inr ())) = (d', Inr u')"
    and r: "run_decoder d' xm = Inr xu" "apply_final d' xx = Inr y"
    by blast
  from b have m1: "middle_conv d1 \<noteq> None"
    by (cases "middle_conv d1") (auto simp: getattr_def bind_err_def)
  have fr: "middle_conv d' = middle_conv d1 \<and> sfs_szs d' = sfs_szs d1"
  proof (cases "upmodel d1 = None")
    case True
    with i have "init_upmodel d1 (last2 x) xm = (d', Inr u')" by simp
    from init_upmodel_frame [OF this] show ?thesis by simp
  next
    case False
    with i show ?thesis by simp
  qed
  have "middle_conv d = None \<longrightarrow> sfs_szs d1 \<noteq> None"
  proof
    assume "middle_conv d = None"
    with m have "init_middle (d\<lparr>sfs := hs\<rparr>) = (d1, Inr u)" by simp
    from init_middle_bottleneck [OF this] show "sfs_szs d1 \<noteq> None" by blast
  qed
  with fr m1 run_decoder_Inr [OF r(1)] apply_final_Inr [OF r(2)] show ?thesis by simp
qed

lemma topology_init:
  "topology (DynamicUnet_init enc lst n) = (None, None, None, None, None, None)"
  by (simp add: topology_def DynamicUnet_init_def)

lemma forward_first_middle:
  assumes "forward d x = (d', r)" "middle_conv d = None"
  shows "(middle_conv d' = None \<and> (\<exists>e. r = Inl e)) \<or>
         (\<exists>hs xe d1 u. encoder_forward (encoder d) (sfs d) x = (hs, Inr xe) \<and>
            init_middle (d\<lparr>sfs := hs\<rparr>) = (d1, Inr u) \<and>
            sfs d' = sfs d1 \<and> middle_conv d' = middle_conv d1 \<and> sfs_szs d' = sfs_szs d1 \<and>
            sfs_idxs d' = sfs_idxs d1)"
  using assms(1)
proof (cases rule: forward_cases)
  case (enc hs e)
  with assms(2) show ?thesis by simp
next
  case (mid_init hs xe e)
  from init_middle_Inl [OF mid_init(3)] assms(2) mid_init(4) show ?thesis by simp
next
  case (mid hs xe u e)
  with assms(2) have "init_middle (d\<lparr>sfs := hs\<rparr>) = (d', Inr u)" by simp
  with mid(1) show ?thesis by blast
next
  case (up_init hs xe d1 u xm e)
  with assms(2) have i: "init_middle (d\<lparr>sfs := hs\<rparr>) = (d1, Inr u)" by simp
  from init_upmodel_frame [OF up_init(5)] i up_init(1) show ?thesis by auto
next
  case (run hs xe d1 u xm u')
  with assms(2) have i: "init_middle (d\<lparr>sfs := hs\<rparr>) = (d1, Inr u)" by simp
  have "sfs d' = sfs d1 \<and> middle_conv d' = middle_conv d1 \<and> sfs_szs d' = sfs_szs d1 \<and>
            sfs_idxs d' = sfs_idxs d1"
  proof (cases "upmodel d1 = None")
    case True
    with run(4) have "init_upmodel d1 (last2 x) xm = (d', Inr u')" by simp
    from init_upmodel_frame [OF this] show ?thesis by simp
  next
    case False
    with run(4) show ?thesis by simp
  qed
  with i run(1) show ?thesis by blast
qed

lemma first_forward_same_size:
  "snd (forward (DynamicUnet_init encoder_same_size True 1) [1, 3, 32, 32]) = Inr [1, 1, 32, 32]"
  by code_simp

lemma first_forward_downsampling:
  "snd (forward (DynamicUnet_init encoder_downsampling_first True 1) [1, 3, 32, 32]) =
     Inr [1, 1, 32, 32]"
  by code_simp

lemma first_forward_downsampling_last:
  "features (last (sfs (fst (forward (DynamicUnet_init encoder_downsampling_first True 1)
      [1, 3, 32, 32])))) = Some [1, 32, 4, 4]"
  by code_simp


lemma apply_extra_cases:
  "apply_extra d xu = Inr xx \<Longrightarrow>
   (case extra_block d of None \<Rightarrow> xx = xu | Some b \<Rightarrow> ConvTranspose2d_forward b xu = Inr xx)"
  by (cases "extra_block d") (auto simp: apply_extra_def)

lemma ConvTranspose2d_doubles:
  "0 < c \<Longrightarrow> 0 < h \<Longrightarrow> 0 < w \<Longrightarrow>
   ConvTranspose2d_forward (ConvTranspose2d c c 2 2 0) [n, c, h, w] = Inr [n, c, 2 * h, 2 * w]"
  by (simp add: bind_err_def convT_out_2)

lemma first_forward_constructed:
  assumes f: "forward d x = (d', r)"
    and n: "middle_conv d = None" "upmodel d = None" "extra_block d = None" "final_conv d = None"
    and c: "final_conv d' \<noteq> None"
  shows "\<exists>s0 blocks blk. sfs d' \<noteq> [] \<and> features (hd (sfs d')) = Some s0 \<and>
           upmodel d' = Some blocks \<and> py_index blocks (- 1) = Inr blk \<and>
           0 < out_channels (conv2 blk) \<and>
           extra_block d' =
             (if last2 x \<noteq> last2 s0
              then Some (ConvTranspose2d (out_channels (conv2 blk)) (out_channels (conv2 blk)) 2 2 0)
              else None)"
proof -
  have "\<exists>hs d1 u xm u'. init_middle (d\<lparr>sfs := hs\<rparr>) = (d1, Inr u) \<and>
          init_upmodel d1 (last2 x) xm = (d', Inr u')"
    using f
  proof (cases rule: forward_cases)
    case (enc hs e)
    with n c show ?thesis by simp
  next
    case (mid_init hs xe e)
    from init_middle_frame [OF mid_init(3)] n c show ?thesis by simp
  next
    case (mid hs xe u e)
    with n have "init_middle (d\<lparr>sfs := hs\<rparr>) = (d', Inr u)" by simp
    from init_middle_frame [OF this] n c show ?thesis by simp
  next
    case (up_init hs xe d1 u xm e)
    with n have i: "init_middle (d\<lparr>sfs := hs\<rparr>) = (d1, Inr u)" by simp
    from init_middle_frame [OF i] init_upmodel_Inl [OF up_init(5)] n c show ?thesis by simp
  next
    case (run hs xe d1 u xm u')
    with n have i: "init_middle (d\<lparr>sfs := hs\<rparr>) = (d1, Inr u)" by simp
    from init_middle_frame [OF i] n have "upmodel d1 = None" by simp
    with run(4) have "init_upmodel d1 (last2 x) xm = (d', Inr u')" by simp
    with i show ?thesis by blast
  qed
  then obtain hs d1 u xm u' where i: "init_middle (d\<lparr>sfs := hs\<rparr>) = (d1, Inr u)"
    and j: "init_upmodel d1 (last2 x) xm = (d', Inr u')" by blast
  from init_middle_frame [OF i] n have e1: "extra_block d1 = None" and u1: "upmodel d1 = None"
    by simp_all
  from init_middle_bottleneck [OF i] obtain szs where
    szs: "sfs_szs d1 = Some szs" "szs \<noteq> []" "map features (sfs d1) = map Some szs" by auto
  from init_upmodel_frame [OF j] have fr: "sfs d' = sfs d1" by simp
  from szs(2,3) have ne: "sfs d1 \<noteq> []" by auto
  have "features (hd (sfs d1)) = hd (map features (sfs d1))" using ne by (simp add: hd_map)
  also have "\<dots> = Some (hd szs)" using szs by (simp add: hd_map)
  finally have h: "features (hd (sfs d1)) = Some (hd szs)" .
  from init_upmodel_Inr [OF j] szs(1) obtain s0 blocks blk where
    s0: "py_index szs 0 = Inr s0" and b: "upmodel d' = Some blocks" "py_index blocks (- 1) = Inr blk"
    and x: "extra_block d' =
             (if last2 x \<noteq> last2 s0
              then Some (ConvTranspose2d (out_channels (conv2 blk)) (out_channels (conv2 blk)) 2 2 0)
              else extra_block d1)" by auto
  from s0 szs(2) have "s0 = hd szs" by (cases szs) (auto simp: py_index_0)
  moreover from init_upmodel_Inr_pos [OF j u1] b py_index_last_Inr [OF b(2)]
  have "0 < out_channels (conv2 blk)" by auto
  ultimately show ?thesis using h fr ne b x e1 by simp
qed

lemma first_forward_downsampling_extra:
  "extra_block (fst (forward (DynamicUnet_init encoder_downsampling_first True 1) [1, 3, 32, 32])) =
     Some (ConvTranspose2d 8 8 2 2 0)"
  by code_simp

lemma first_forward_same_size_extra:
  "extra_block (fst (forward (DynamicUnet_init encoder_same_size True 1) [1, 3, 32, 32])) = None"
  by code_simp

lemma first_forward_downsampling_hd:
  "features (hd (sfs (fst (forward (DynamicUnet_init encoder_downsampling_first True 1)
      [1, 3, 32, 32])))) = Some [1, 8, 16, 16]"
  by code_simp

lemma first_forward_downsampling_final:
  "final_conv (fst (forward (DynamicUnet_init encoder_downsampling_first True 1) [1, 3, 32, 32])) =
     Some (Conv2d 8 1 1 1 0)"
  by code_simp

lemma first_forward_empty_selection:
  assumes f: "forward d x = (d', r)"
    and n: "middle_conv d = None" "upmodel d = None"
    and e: "sfs_idxs d' = Some []"
  shows "(\<forall>y. r \<noteq> Inr y) \<and> upmodel d' = None \<and> extra_block d' = extra_block d \<and>
         final_conv d' = final_conv d \<and>
         (\<forall>m hs xe xm. encoder_forward (encoder d) (sfs d) x = (hs, Inr xe) \<and>
            middle_conv d' = Some m \<and> Sequential_forward m (relu xe) = Inr xm \<longrightarrow>
            r = Inl AttributeError)"
  using f
proof (cases rule: forward_cases)
  case (enc hs err)
  with n show ?thesis by simp
next
  case (mid_init hs xe err)
  from init_middle_frame [OF mid_init(3)] init_middle_Inl [OF mid_init(3)] n mid_init(4)
  show ?thesis by simp
next
  case (mid hs xe u err)
  with n have i: "init_middle (d\<lparr>sfs := hs\<rparr>) = (d', Inr u)" by simp
  have "\<forall>m. middle_conv d' = Some m \<longrightarrow> Sequential_forward m (relu xe) = Inl err"
    using mid(3) by (auto simp: getattr_def bind_err_def)
  with init_middle_frame [OF i] n mid(1,4) show ?thesis by auto
next
  case (up_init hs xe d1 u xm err)
  with n have i: "init_middle (d\<lparr>sfs := hs\<rparr>) = (d1, Inr u)" by simp
  from init_middle_frame [OF i] n have fr: "upmodel d1 = None" "extra_block d1 = extra_block d"
    "final_conv d1 = final_conv d" by simp_all
  from init_upmodel_frame [OF up_init(5)] e have e1: "sfs_idxs d1 = Some []" by simp
  from init_middle_bottleneck [OF i] obtain szs where
    szs: "sfs_szs d1 = Some szs" "szs \<noteq> []" by auto
  from init_upmodel_empty [OF up_init(5) e1 fr(1)] szs have "d' = d1" "Inl err = Inl AttributeError"
    by auto
  with fr up_init(6) show ?thesis by simp
next
  case (run hs xe d1 u xm u')
  with n have i: "init_middle (d\<lparr>sfs := hs\<rparr>) = (d1, Inr u)" by simp
  from init_middle_frame [OF i] n have fr: "upmodel d1 = None" by simp
  with run(4) have j: "init_upmodel d1 (last2 x) xm = (d', Inr u')" by simp
  from init_upmodel_frame [OF j] e have e1: "sfs_idxs d1 = Some []" by simp
  from init_upmodel_empty [OF j e1 fr] show ?thesis by simp
qed

lemma first_forward_constant:
  "snd (forward (DynamicUnet_init encoder_constant True 1) [1, 3, 32, 32]) = Inl AttributeError"
  by code_simp

lemma first_forward_constant_idxs:
  "sfs_idxs (fst (forward (DynamicUnet_init encoder_constant True 1) [1, 3, 32, 32])) = Some []"
  by code_simp

lemma first_forward_constant_final:
  "final_conv (fst (forward (DynamicUnet_init encoder_constant True 1) [1, 3, 32, 32])) = None"
  by code_simp

lemma first_forward_16_8_8_4:
  "sfs_idxs (fst (forward (DynamicUnet_init encoder_16_8_8_4 True 1) [1, 3, 32, 32])) =
     Some [0, 0, 2] \<and>
   snd (forward (DynamicUnet_init encoder_16_8_8_4 True 1) [1, 3, 32, 32]) = Inl RuntimeError \<and>
   final_conv (fst (forward (DynamicUnet_init encoder_16_8_8_4 True 1) [1, 3, 32, 32])) = None"
  by code_simp

section \<open>Claims about get\_sfs\_idxs\<close>

text \<open>
  C6: for recorded activations whose trailing sizes are 32, 32, 16, 16, 8 (whatever the
  leading dimensions are), \<^verbatim>\<open>get_sfs_idxs\<close> with \<^verbatim>\<open>last=True\<close> returns [1, 3]: the
  index just before each size change, and no prepended 0 since the first two sizes agree.
\<close>

theorem get_sfs_idxs_32_32_16_16_8:
  "get_sfs_idxs
     [\<lparr>features = Some (p0 @ [32])\<rparr>, \<lparr>features = Some (p1 @ [32])\<rparr>,
      \<lparr>features = Some (p2 @ [16])\<rparr>, \<lparr>features = Some (p3 @ [16])\<rparr>,
      \<lparr>features = Some (p4 @ [8])\<rparr>] True = Inr [1, 3]"
  by (simp add: get_sfs_idxs_def trailing_size where_neq_def py_index_0 py_index_1 upt_rec)

text \<open>
  C8: with \<^verbatim>\<open>last=False\<close>, \<^verbatim>\<open>get_sfs_idxs\<close> returns all the indices 0, ..., N-1 of a
  sequence of N recorders, in ascending order, and never looks at what was recorded
  (not even whether anything was).
\<close>

theorem get_sfs_idxs_all:
  "get_sfs_idxs hs False = Inr [0..<length hs]"
  by (simp add: get_sfs_idxs_def)

text \<open>
  C1: for recorded activations whose trailing sizes are 16, 8, 8, 4 the code does not return
  [0, 2]. The comparison of neighbours already finds the change at index 0, and the
  prepended 0 comes on top of it: the result is [0, 0, 2].
\<close>

theorem get_sfs_idxs_16_8_8_4:
  "get_sfs_idxs
     [\<lparr>features = Some (p0 @ [16])\<rparr>, \<lparr>features = Some (p1 @ [8])\<rparr>,
      \<lparr>features = Some (p2 @ [8])\<rparr>, \<lparr>features = Some (p3 @ [4])\<rparr>] True = Inr [0, 0, 2]"
  by (simp add: get_sfs_idxs_def trailing_size where_neq_def py_index_0 py_index_1 upt_rec)

text \<open>
  C9: with \<^verbatim>\<open>last=True\<close>, \<^verbatim>\<open>get_sfs_idxs\<close> on a single recorded activation always
  fails with an index error, at the read of a second size (or before, at the read of the
  trailing size of a 0-dimensional activation); and on recorded activations of at least
  one dimension each it returns a result exactly when there are at least two of them.
\<close>

theorem get_sfs_idxs_last_needs_two:
  "(features s = Some sh \<longrightarrow> get_sfs_idxs [s] True = Inl IndexError) \<and>
   ((\<forall>s\<in>set hs. \<exists>sh. features s = Some sh \<and> sh \<noteq> []) \<longrightarrow>
      ((\<exists>r. get_sfs_idxs hs True = Inr r) \<longleftrightarrow> 2 \<le> length hs))"
  using get_sfs_idxs_single [of s sh] get_sfs_idxs_total_iff [of hs] by blast

theorem get_sfs_idxs_last_needs_two_witness:
  "get_sfs_idxs [\<lparr>features = Some [1, 8, 4, 4]\<rparr>] True = Inl IndexError \<and>
   (\<exists>r. get_sfs_idxs [\<lparr>features = Some [1, 8, 4, 4]\<rparr>, \<lparr>features = Some [1, 16, 2, 2]\<rparr>] True = Inr r)"
  using get_sfs_idxs_last_needs_two
    [of "\<lparr>features = Some [1, 8, 4, 4]\<rparr>" "[1, 8, 4, 4]"
        "[\<lparr>features = Some [1, 8, 4, 4]\<rparr>, \<lparr>features = Some [1, 16, 2, 2]\<rparr>]"]
  by simp

section \<open>Claims about UnetBlock\<close>

text \<open>
  C4: a block built for \<open>up_in_c\<close> and \<open>x_in_c\<close> channels, both wide enough for every
  layer of the block to have a channel (\<open>up_in_c\<close> at least 2, \<open>x_in_c\<close> at least 1),
  given a batch of \<open>up_in_c\<close> channels and a skip activation of \<open>x_in_c\<close> channels at
  twice the spatial size, returns a tensor of \<open>(x_in_c + up_in_c div 2) div 2\<close> channels
  at twice the spatial size of \<open>up_in\<close>; whenever a block of whatever widths returns at
  all, its inputs were of that kind and its output has that shape; and 512 and 256 channels
  give 256.
\<close>

theorem UnetBlock_output_shape:
  "(2 \<le> up_in_c \<and> 0 < x_in_c \<and> 0 < n \<and> 0 < h \<and> 0 < w \<longrightarrow>
      UnetBlock_forward (UnetBlock_init up_in_c x_in_c) [n, up_in_c, h, w]
        (Some [n, x_in_c, 2 * h, 2 * w]) =
      Inr [n, (x_in_c + up_in_c div 2) div 2, 2 * h, 2 * w]) \<and>
   (UnetBlock_forward (UnetBlock_init up_in_c x_in_c) up_in x_in = Inr out \<longrightarrow>
      (\<exists>n' h' w'. up_in = [n', up_in_c, h', w'] \<and> x_in = Some [n', x_in_c, 2 * h', 2 * w'] \<and>
         out = [n', (x_in_c + up_in_c div 2) div 2, 2 * h', 2 * w'])) \<and>
   (0 < n \<and> 0 < h \<and> 0 < w \<longrightarrow>
      UnetBlock_forward (UnetBlock_init 512 256) [n, 512, h, w] (Some [n, 256, 2 * h, 2 * w]) =
      Inr [n, 256, 2 * h, 2 * w])"
proof (intro conjI impI)
  assume "2 \<le> up_in_c \<and> 0 < x_in_c \<and> 0 < n \<and> 0 < h \<and> 0 < w"
  then show "UnetBlock_forward (UnetBlock_init up_in_c x_in_c) [n, up_in_c, h, w]
        (Some [n, x_in_c, 2 * h, 2 * w]) =
      Inr [n, (x_in_c + up_in_c div 2) div 2, 2 * h, 2 * w]"
    using UnetBlock_forward_ok [of up_in_c x_in_c n h w] by blast
next
  assume "UnetBlock_forward (UnetBlock_init up_in_c x_in_c) up_in x_in = Inr out"
  from UnetBlock_forward_shape [OF this]
  show "\<exists>n' h' w'. up_in = [n', up_in_c, h', w'] \<and> x_in = Some [n', x_in_c, 2 * h', 2 * w'] \<and>
         out = [n', (x_in_c + up_in_c div 2) div 2, 2 * h', 2 * w']"
    by blast
next
  assume "0 < n \<and> 0 < h \<and> 0 < w"
  then show "UnetBlock_forward (UnetBlock_init 512 256) [n, 512, h, w]
      (Some [n, 256, 2 * h, 2 * w]) = Inr [n, 256, 2 * h, 2 * w]"
    using UnetBlock_forward_ok [of 512 256 n h w] by simp
qed

theorem UnetBlock_output_shape_witness:
  "UnetBlock_forward (UnetBlock_init 512 256) [1, 512, 4, 4] (Some [1, 256, 8, 8]) =
     Inr [1, 256, 8, 8] \<and>
   UnetBlock_forward (UnetBlock_init 64 32) [2, 64, 3, 5] (Some [2, 32, 6, 10]) =
     Inr [2, 32, 6, 10]"
  using UnetBlock_output_shape [of 512 256 1 4 4 "[1, 512, 4, 4]" "Some [1, 256, 8, 8]" "[1, 256, 8, 8]"]
    UnetBlock_output_shape [of 64 32 2 3 5 "[2, 64, 3, 5]" "Some [2, 32, 6, 10]" "[2, 32, 6, 10]"]
  by simp

text \<open>
  C10, as the code has it: for \<open>up_in_c\<close> at least 2 and \<open>x_in_c\<close> at least 1, whatever
  the parity of \<open>up_in_c\<close>, the transposed convolution of a block gives \<open>up_in_c div 2\<close>
  channels, concatenating the \<open>x_in_c\<close> channels of the skip gives the
  \<open>x_in_c + up_in_c div 2\<close> channels that the first convolution takes, and the block's
  forward returns the tensor of \<open>(x_in_c + up_in_c div 2) div 2\<close> channels at twice the
  size, while a skip of any other channel count is refused by the first convolution. For
  \<open>up_in_c\<close> below 2 the transposed convolution has no output channel and the forward of
  the block raises on every input.
\<close>

theorem UnetBlock_channels_consistent:
  "t_out_channels (upconv (UnetBlock_init u x)) = u div 2 \<and>
   in_channels (conv1 (UnetBlock_init u x)) = x + u div 2 \<and>
   (2 \<le> u \<and> 0 < x \<and> 0 < n \<and> 0 < h \<and> 0 < w \<longrightarrow>
      (\<exists>up_out cat_x.
         ConvTranspose2d_forward (upconv (UnetBlock_init u x)) [n, u, h, w] = Inr up_out \<and>
         py_index up_out 1 = Inr (u div 2) \<and>
         torch_cat up_out [n, x, 2 * h, 2 * w] = Inr cat_x \<and>
         py_index cat_x 1 = Inr (in_channels (conv1 (UnetBlock_init u x)))) \<and>
      UnetBlock_forward (UnetBlock_init u x) [n, u, h, w] (Some [n, x, 2 * h, 2 * w]) =
        Inr [n, (x + u div 2) div 2, 2 * h, 2 * w] \<and>
      (\<forall>x'. x' \<noteq> x \<longrightarrow>
         UnetBlock_forward (UnetBlock_init u x) [n, u, h, w] (Some [n, x', 2 * h, 2 * w]) =
           Inl RuntimeError)) \<and>
   (u < 2 \<longrightarrow> UnetBlock_forward (UnetBlock_init u x) up_in x_in = Inl RuntimeError)"
proof (intro conjI impI allI)
  show "t_out_channels (upconv (UnetBlock_init u x)) = u div 2"
    by (simp add: UnetBlock_init_def)
next
  show "in_channels (conv1 (UnetBlock_init u x)) = x + u div 2"
    by (simp add: UnetBlock_init_def)
next
  assume a: "2 \<le> u \<and> 0 < x \<and> 0 < n \<and> 0 < h \<and> 0 < w"
  then have p: "0 < u" "0 < u div 2" by simp_all
  with a show "\<exists>up_out cat_x.
         ConvTranspose2d_forward (upconv (UnetBlock_init u x)) [n, u, h, w] = Inr up_out \<and>
         py_index up_out 1 = Inr (u div 2) \<and>
         torch_cat up_out [n, x, 2 * h, 2 * w] = Inr cat_x \<and>
         py_index cat_x 1 = Inr (in_channels (conv1 (UnetBlock_init u x)))"
    by (simp add: UnetBlock_init_def bind_err_def convT_out_2 torch_cat_def py_index_1 add.commute)
next
  assume "2 \<le> u \<and> 0 < x \<and> 0 < n \<and> 0 < h \<and> 0 < w"
  then show "UnetBlock_forward (UnetBlock_init u x) [n, u, h, w] (Some [n, x, 2 * h, 2 * w]) =
        Inr [n, (x + u div 2) div 2, 2 * h, 2 * w]"
    using UnetBlock_forward_ok [of u x n h w] by blast
next
  fix x'
  assume a: "2 \<le> u \<and> 0 < x \<and> 0 < n \<and> 0 < h \<and> 0 < w" and ne: "x' \<noteq> x"
  then have p: "0 < u" "0 < u div 2" by simp_all
  with a ne show "UnetBlock_forward (UnetBlock_init u x) [n, u, h, w] (Some [n, x', 2 * h, 2 * w]) =
           Inl RuntimeError"
    by (simp add: UnetBlock_forward_def UnetBlock_init_def bind_err_def convT_out_2 torch_cat_def)
next
  assume "u < 2"
  then show "UnetBlock_forward (UnetBlock_init u x) up_in x_in = Inl RuntimeError"
    by (rule UnetBlock_forward_narrow)
qed

theorem UnetBlock_channels_consistent_witness:
  "t_out_channels (upconv (UnetBlock_init 5 3)) = 2 \<and>
   in_channels (conv1 (UnetBlock_init 5 3)) = 5 \<and>
   UnetBlock_forward (UnetBlock_init 5 3) [1, 5, 2, 2] (Some [1, 3, 4, 4]) = Inr [1, 2, 4, 4] \<and>
   UnetBlock_forward (UnetBlock_init 5 3) [1, 5, 2, 2] (Some [1, 4, 4, 4]) = Inl RuntimeError \<and>
   UnetBlock_forward (UnetBlock_init 1 3) [1, 1, 2, 2] (Some [1, 3, 4, 4]) = Inl RuntimeError"
  using UnetBlock_channels_consistent [of 5 3 1 2 2 "[1, 5, 2, 2]" "Some [1, 3, 4, 4]"]
    UnetBlock_channels_consistent [of 1 3 1 2 2 "[1, 1, 2, 2]" "Some [1, 3, 4, 4]"]
  by simp

text \<open>
  C10, as the specification has it, fails at \<open>up_in_c = 1\<close>, which is positive: the block
  for 1 and 3 channels, given a batch of 1 channel and a skip of 3 channels at twice the
  size, raises a runtime error in its transposed convolution, whose weight is empty.
\<close>

theorem UnetBlock_up_in_c_1_counterexample:
  "UnetBlock_forward (UnetBlock_init 1 3) [1, 1, 2, 2] (Some [1, 3, 4, 4]) = Inl RuntimeError"
  by (simp add: UnetBlock_forward_def UnetBlock_init_def bind_err_def)

section \<open>Claims about DynamicUnet.forward\<close>

text \<open>
  C3: when the first call of \<^verbatim>\<open>forward\<close> on a new instance returns, it has assigned
  \<^verbatim>\<open>sfs_idxs\<close>, \<^verbatim>\<open>sfs_szs\<close>, \<^verbatim>\<open>middle_conv\<close>, \<^verbatim>\<open>upmodel\<close> and
  \<^verbatim>\<open>final_conv\<close> (and \<^verbatim>\<open>extra_block\<close> or not), none of which the new instance had,
  and no later sequence of calls, on inputs of whatever size and whether they return or
  raise, changes any of the six.
\<close>

theorem topology_fixed_after_first_forward:
  "forward (DynamicUnet_init enc lst n) x = (d1, Inr y) \<longrightarrow>
     topology (DynamicUnet_init enc lst n) = (None, None, None, None, None, None) \<and>
     sfs_idxs d1 \<noteq> None \<and> sfs_szs d1 \<noteq> None \<and> middle_conv d1 \<noteq> None \<and>
     upmodel d1 \<noteq> None \<and> final_conv d1 \<noteq> None \<and>
     (\<forall>xs. topology (forward_calls d1 xs) = topology d1)"
proof
  assume f: "forward (DynamicUnet_init enc lst n) x = (d1, Inr y)"
  have "middle_conv (DynamicUnet_init enc lst n) = None" by (simp add: DynamicUnet_init_def)
  with forward_Inr_fields [OF f] have fields:
    "sfs_idxs d1 \<noteq> None" "sfs_szs d1 \<noteq> None" "middle_conv d1 \<noteq> None"
    "upmodel d1 \<noteq> None" "final_conv d1 \<noteq> None" by simp_all
  with forward_calls_cached [of d1] topology_init [of enc lst n]
  show "topology (DynamicUnet_init enc lst n) = (None, None, None, None, None, None) \<and>
     sfs_idxs d1 \<noteq> None \<and> sfs_szs d1 \<noteq> None \<and> middle_conv d1 \<noteq> None \<and>
     upmodel d1 \<noteq> None \<and> final_conv d1 \<noteq> None \<and>
     (\<forall>xs. topology (forward_calls d1 xs) = topology d1)" by simp
qed


theorem topology_fixed_after_first_forward_witness:
  "snd (forward (DynamicUnet_init encoder_same_size True 1) [1, 3, 32, 32]) = Inr [1, 1, 32, 32] \<and>
   upmodel (fst (forward (DynamicUnet_init encoder_same_size True 1) [1, 3, 32, 32])) \<noteq> None \<and>
   topology (forward_calls (fst (forward (DynamicUnet_init encoder_same_size True 1) [1, 3, 32, 32]))
      [[4, 3, 32, 32], [1, 3, 64, 64], [1, 3, 1, 1]]) =
   topology (fst (forward (DynamicUnet_init encoder_same_size True 1) [1, 3, 32, 32]))"
proof -
  have "forward (DynamicUnet_init encoder_same_size True 1) [1, 3, 32, 32] =
      (fst (forward (DynamicUnet_init encoder_same_size True 1) [1, 3, 32, 32]), Inr [1, 1, 32, 32])"
    using first_forward_same_size by (simp add: prod_eq_iff)
  with topology_fixed_after_first_forward
    [of encoder_same_size True 1 "[1, 3, 32, 32]"
        "fst (forward (DynamicUnet_init encoder_same_size True 1) [1, 3, 32, 32])" "[1, 1, 32, 32]"]
    first_forward_same_size
  show ?thesis by blast
qed



text \<open>
  C7: the bottleneck that a call of \<^verbatim>\<open>forward\<close> builds on an instance without one is
  convolution, ReLU, batch normalisation from \<open>c\<close> to \<open>2c\<close> channels and then the same
  from \<open>2c\<close> back to \<open>c\<close>, where \<open>c\<close> is the channel count of the last recorded
  activation; and a call that returns has built it.
\<close>

theorem bottleneck_channels:
  "middle_conv d = None \<and> forward d x = (d', r) \<longrightarrow>
     (\<forall>y. r = Inr y \<longrightarrow> middle_conv d' \<noteq> None) \<and>
     (\<forall>m. middle_conv d' = Some m \<longrightarrow>
        (\<exists>sh c. sfs d' \<noteq> [] \<and> features (last (sfs d')) = Some sh \<and> py_index sh 1 = Inr c \<and>
           m = [ConvL (Conv2d c (c * 2) 3 1 1), ReLU, BatchNormL (BatchNorm2d (c * 2) True),
                ConvL (Conv2d (c * 2) c 3 1 1), ReLU, BatchNormL (BatchNorm2d c True)]))"
proof
  assume a: "middle_conv d = None \<and> forward d x = (d', r)"
  then have f: "forward d x = (d', r)" and n: "middle_conv d = None" by simp_all
  have 1: "\<forall>y. r = Inr y \<longrightarrow> middle_conv d' \<noteq> None"
    using forward_Inr_fields [of d x d'] f by auto
  have 2: "\<forall>m. middle_conv d' = Some m \<longrightarrow>
        (\<exists>sh c. sfs d' \<noteq> [] \<and> features (last (sfs d')) = Some sh \<and> py_index sh 1 = Inr c \<and>
           m = [ConvL (Conv2d c (c * 2) 3 1 1), ReLU, BatchNormL (BatchNorm2d (c * 2) True),
                ConvL (Conv2d (c * 2) c 3 1 1), ReLU, BatchNormL (BatchNorm2d c True)])"
  proof (intro allI impI)
    fix m
    assume m: "middle_conv d' = Some m"
    with forward_first_middle [OF f n] obtain hs d1 u where
      i: "init_middle (d\<lparr>sfs := hs\<rparr>) = (d1, Inr u)"
      and eq: "sfs d' = sfs d1" "middle_conv d' = middle_conv d1" by auto
    from init_middle_bottleneck [OF i] eq m
    show "\<exists>sh c. sfs d' \<noteq> [] \<and> features (last (sfs d')) = Some sh \<and> py_index sh 1 = Inr c \<and>
           m = [ConvL (Conv2d c (c * 2) 3 1 1), ReLU, BatchNormL (BatchNorm2d (c * 2) True),
                ConvL (Conv2d (c * 2) c 3 1 1), ReLU, BatchNormL (BatchNorm2d c True)]"
      by auto
  qed
  from 1 2 show "(\<forall>y. r = Inr y \<longrightarrow> middle_conv d' \<noteq> None) \<and>
     (\<forall>m. middle_conv d' = Some m \<longrightarrow>
        (\<exists>sh c. sfs d' \<noteq> [] \<and> features (last (sfs d')) = Some sh \<and> py_index sh 1 = Inr c \<and>
           m = [ConvL (Conv2d c (c * 2) 3 1 1), ReLU, BatchNormL (BatchNorm2d (c * 2) True),
                ConvL (Conv2d (c * 2) c 3 1 1), ReLU, BatchNormL (BatchNorm2d c True)]))"
    by blast
qed


theorem bottleneck_channels_witness:
  "snd (forward (DynamicUnet_init encoder_downsampling_first True 1) [1, 3, 32, 32]) =
     Inr [1, 1, 32, 32] \<and>
   features (last (sfs (fst (forward (DynamicUnet_init encoder_downsampling_first True 1)
      [1, 3, 32, 32])))) = Some [1, 32, 4, 4] \<and>
   middle_conv (fst (forward (DynamicUnet_init encoder_downsampling_first True 1) [1, 3, 32, 32])) =
     Some [ConvL (Conv2d 32 64 3 1 1), ReLU, BatchNormL (BatchNorm2d 64 True),
           ConvL (Conv2d 64 32 3 1 1), ReLU, BatchNormL (BatchNorm2d 32 True)]"
proof -
  let ?d = "DynamicUnet_init encoder_downsampling_first True 1"
  let ?F = "forward ?d [1, 3, 32, 32]"
  have n: "middle_conv ?d = None" by (simp add: DynamicUnet_init_def)
  have f: "?F = (fst ?F, Inr [1, 1, 32, 32])"
    using first_forward_downsampling by (simp add: prod_eq_iff)
  from bottleneck_channels [of ?d "[1, 3, 32, 32]" "fst ?F" "Inr [1, 1, 32, 32]"] n f
  obtain m sh c where m: "middle_conv (fst ?F) = Some m"
    "features (last (sfs (fst ?F))) = Some sh" "py_index sh 1 = Inr c"
    "m = [ConvL (Conv2d c (c * 2) 3 1 1), ReLU, BatchNormL (BatchNorm2d (c * 2) True),
          ConvL (Conv2d (c * 2) c 3 1 1), ReLU, BatchNormL (BatchNorm2d c True)]"
    by (cases "middle_conv (fst ?F)") auto
  from m(2) first_forward_downsampling_last have "sh = [1, 32, 4, 4]" by simp
  with m(3) have "c = 32" by (simp add: py_index_1)
  with m first_forward_downsampling first_forward_downsampling_last show ?thesis by simp
qed

text \<open>
  C5: on a first call (no bottleneck, no decoder blocks, no extra block and no final
  convolution yet) that gets as far as the final convolution, the extra block exists
  afterwards exactly when the last two dimensions of the input differ from those of the
  first recorded activation, and it is then a transposed convolution with as many output
  as input channels, namely those of the last decoder block, which are more than none;
  such a layer doubles height and width; and every call that returns has passed the output
  of the decoder blocks through the extra block if the instance has one, and directly to
  the final convolution if not.
\<close>

theorem extra_block_iff_size_differs:
  "(middle_conv d = None \<and> upmodel d = None \<and> extra_block d = None \<and> final_conv d = None \<and>
    forward d x = (d', r) \<and> final_conv d' \<noteq> None \<longrightarrow>
      (\<exists>s0 blocks blk. sfs d' \<noteq> [] \<and> features (hd (sfs d')) = Some s0 \<and>
           upmodel d' = Some blocks \<and> py_index blocks (- 1) = Inr blk \<and>
           0 < out_channels (conv2 blk) \<and>
           extra_block d' =
             (if last2 x \<noteq> last2 s0
              then Some (ConvTranspose2d (out_channels (conv2 blk)) (out_channels (conv2 blk)) 2 2 0)
              else None))) \<and>
   (0 < c \<and> 0 < h \<and> 0 < w \<longrightarrow>
      ConvTranspose2d_forward (ConvTranspose2d c c 2 2 0) [n, c, h, w] = Inr [n, c, 2 * h, 2 * w]) \<and>
   (forward d x = (d', Inr y) \<longrightarrow>
      (\<exists>xm xu xx. run_decoder d' xm = Inr xu \<and> apply_final d' xx = Inr y \<and>
         (case extra_block d' of
            None \<Rightarrow> xx = xu
          | Some b \<Rightarrow> ConvTranspose2d_forward b xu = Inr xx)))"
proof (intro conjI impI)
  assume a: "middle_conv d = None \<and> upmodel d = None \<and> extra_block d = None \<and>
    final_conv d = None \<and> forward d x = (d', r) \<and> final_conv d' \<noteq> None"
  then show "\<exists>s0 blocks blk. sfs d' \<noteq> [] \<and> features (hd (sfs d')) = Some s0 \<and>
           upmodel d' = Some blocks \<and> py_index blocks (- 1) = Inr blk \<and>
           0 < out_channels (conv2 blk) \<and>
           extra_block d' =
             (if last2 x \<noteq> last2 s0
              then Some (ConvTranspose2d (out_channels (conv2 blk)) (out_channels (conv2 blk)) 2 2 0)
              else None)"
    using first_forward_constructed [of d x d' r] by blast
next
  assume "0 < c \<and> 0 < h \<and> 0 < w"
  then show "ConvTranspose2d_forward (ConvTranspose2d c c 2 2 0) [n, c, h, w] =
      Inr [n, c, 2 * h, 2 * w]"
    using ConvTranspose2d_doubles [of c h w n] by blast
next
  assume "forward d x = (d', Inr y)"
  from forward_Inr_run [OF this] obtain xm xu xx where
    r: "run_decoder d' xm = Inr xu" "apply_extra d' xu = Inr xx" "apply_final d' xx = Inr y"
    by blast
  from apply_extra_cases [OF r(2)] r(1,3)
  show "\<exists>xm xu xx. run_decoder d' xm = Inr xu \<and> apply_final d' xx = Inr y \<and>
         (case extra_block d' of
            None \<Rightarrow> xx = xu
          | Some b \<Rightarrow> ConvTranspose2d_forward b xu = Inr xx)"
    by blast
qed

theorem extra_block_iff_size_differs_witness:
  "snd (forward (DynamicUnet_init encoder_downsampling_first True 1) [1, 3, 32, 32]) =
     Inr [1, 1, 32, 32] \<and>
   features (hd (sfs (fst (forward (DynamicUnet_init encoder_downsampling_first True 1)
      [1, 3, 32, 32])))) = Some [1, 8, 16, 16] \<and>
   last2 [1, 3, 32, 32] \<noteq> last2 [1, 8, 16, 16 :: nat] \<and>
   (\<exists>blocks blk.
      upmodel (fst (forward (DynamicUnet_init encoder_downsampling_first True 1) [1, 3, 32, 32])) =
        Some blocks \<and> py_index blocks (- 1) = Inr blk \<and>
      extra_block (fst (forward (DynamicUnet_init encoder_downsampling_first True 1) [1, 3, 32, 32])) =
        Some (ConvTranspose2d (out_channels (conv2 blk)) (out_channels (conv2 blk)) 2 2 0)) \<and>
   ConvTranspose2d_forward (ConvTranspose2d 8 8 2 2 0) [1, 8, 16, 16] = Inr [1, 8, 32, 32]"
proof -
  let ?d = "DynamicUnet_init encoder_downsampling_first True 1"
  let ?F = "forward ?d [1, 3, 32, 32]"
  have n: "middle_conv ?d = None" "upmodel ?d = None" "extra_block ?d = None" "final_conv ?d = None"
    by (simp_all add: DynamicUnet_init_def)
  have f: "?F = (fst ?F, Inr [1, 1, 32, 32])"
    using first_forward_downsampling by (simp add: prod_eq_iff)
  have c: "final_conv (fst ?F) \<noteq> None" using first_forward_downsampling_final by simp
  have ne: "last2 [1, 3, 32, 32] \<noteq> last2 [1, 8, 16, 16 :: nat]" by (simp add: last2_def)
  from extra_block_iff_size_differs [of ?d "[1, 3, 32, 32]" "fst ?F" "Inr [1, 1, 32, 32]" 8 16 16 1
      "[1, 1, 32, 32]"] n f c
  obtain s0 blocks blk where
    s: "features (hd (sfs (fst ?F))) = Some s0" "upmodel (fst ?F) = Some blocks"
       "py_index blocks (- 1) = Inr blk"
       "extra_block (fst ?F) =
             (if last2 [1, 3, 32, 32] \<noteq> last2 s0
              then Some (ConvTranspose2d (out_channels (conv2 blk)) (out_channels (conv2 blk)) 2 2 0)
              else None)"
    and t: "ConvTranspose2d_forward (ConvTranspose2d 8 8 2 2 0) [1, 8, 16, 16] = Inr [1, 8, 32, 32]"
    by auto
  from s(1) first_forward_downsampling_hd have "s0 = [1, 8, 16, 16]" by simp
  with s ne t first_forward_downsampling first_forward_downsampling_hd show ?thesis by auto
qed

text \<open>
  C2, as the code has it: when a first call selects no skip index, the loop over the
  decoder blocks runs zero times, \<^verbatim>\<open>upmodel\<close> is never assigned, and the call does
  not return: neither an extra block nor a final convolution is created, and once the
  bottleneck has been built and applied the call fails with an attribute error at the read
  of \<^verbatim>\<open>self.upmodel\<close>.
\<close>

theorem forward_empty_selection_fails:
  "middle_conv d = None \<and> upmodel d = None \<and> forward d x = (d', r) \<and> sfs_idxs d' = Some [] \<longrightarrow>
     (\<forall>y. r \<noteq> Inr y) \<and> upmodel d' = None \<and> extra_block d' = extra_block d \<and>
     final_conv d' = final_conv d \<and>
     (\<forall>m hs xe xm. encoder_forward (encoder d) (sfs d) x = (hs, Inr xe) \<and>
        middle_conv d' = Some m \<and> Sequential_forward m (relu xe) = Inr xm \<longrightarrow>
        r = Inl AttributeError)"
  using first_forward_empty_selection [of d x d' r] by blast

theorem forward_empty_selection_fails_witness:
  "sfs_idxs (fst (forward (DynamicUnet_init encoder_constant True 1) [2, 3, 8, 8])) = Some [] \<and>
   (\<forall>y. snd (forward (DynamicUnet_init encoder_constant True 1) [2, 3, 8, 8]) \<noteq> Inr y) \<and>
   upmodel (fst (forward (DynamicUnet_init encoder_constant True 1) [2, 3, 8, 8])) = None \<and>
   extra_block (fst (forward (DynamicUnet_init encoder_constant True 1) [2, 3, 8, 8])) = None \<and>
   final_conv (fst (forward (DynamicUnet_init encoder_constant True 1) [2, 3, 8, 8])) = None"
proof -
  let ?d = "DynamicUnet_init encoder_constant True 1"
  let ?F = "forward ?d [2, 3, 8, 8]"
  have n: "middle_conv ?d = None" "upmodel ?d = None" "extra_block ?d = None" "final_conv ?d = None"
    by (simp_all add: DynamicUnet_init_def)
  have e: "sfs_idxs (fst ?F) = Some []" by code_simp
  have f: "?F = (fst ?F, snd ?F)" by simp
  from forward_empty_selection_fails [of ?d "[2, 3, 8, 8]" "fst ?F" "snd ?F"] n e f
  show ?thesis by simp
qed

text \<open>
  C2, as the specification has it, fails: on the two-stage constant-resolution encoder
  \<open>encoder_constant\<close> the selection is empty and the first call raises an attribute
  error instead of returning, with no final convolution built.
\<close>

theorem forward_constant_resolution_counterexample:
  "sfs_idxs (fst (forward (DynamicUnet_init encoder_constant True 1) [1, 3, 32, 32])) = Some [] \<and>
   snd (forward (DynamicUnet_init encoder_constant True 1) [1, 3, 32, 32]) = Inl AttributeError \<and>
   \<not> (\<exists>y. snd (forward (DynamicUnet_init encoder_constant True 1) [1, 3, 32, 32]) = Inr y) \<and>
   final_conv (fst (forward (DynamicUnet_init encoder_constant True 1) [1, 3, 32, 32])) = None"
  using first_forward_constant first_forward_constant_idxs first_forward_constant_final
  by simp

end
